theory Spec2Isabelle
  imports Main "HOL-Library.Signed_Division"
begin

section \<open>The now-playing resolver of script.js\<close>

text \<open>
  A shallow embedding of \<^verbatim>\<open>loadCurrentProgramFromPrograma\<close>,
  \<^verbatim>\<open>computeNowFromScheduleDOM\<close>, \<^verbatim>\<open>renderNowPlayingToTarget\<close>, \<^verbatim>\<open>fmt\<close> and
  \<^verbatim>\<open>escapeHtml\<close> (script.js, lines 310 to 451).

  A JavaScript string is a sequence of UTF-16 code units; a code unit is a natural
  number here. The numbers this code computes with are integers (minutes); all but the
  argument of \<^verbatim>\<open>fmt\<close> are sums and products of one- and two-digit numbers and of
  clock readings, far below \<open>2^53\<close>, where the arithmetic of JavaScript is that of
  \<open>int\<close>. \<^verbatim>\<open>null\<close> is \<open>None\<close>.
\<close>

subsection \<open>Strings and the character classes of the regular expressions\<close>

type_synonym jstring = "nat list"

text \<open>An ASCII literal as a JavaScript string.\<close>

definition js :: "string \<Rightarrow> jstring" where
  "js s = map of_char s"

text \<open>\<^verbatim>\<open>\d\<close>: the ten ASCII digits.\<close>

definition is_digit :: "nat \<Rightarrow> bool" where
  "is_digit c = (48 \<le> c \<and> c \<le> 57)"

text \<open>
  \<^verbatim>\<open>\s\<close>, which is also what \<^verbatim>\<open>trim\<close> strips: TAB, LF, VT, FF, CR, space, U+00A0,
  U+1680, U+2000 to U+200A, U+2028, U+2029, U+202F, U+205F, U+3000 and U+FEFF.
\<close>

definition is_space :: "nat \<Rightarrow> bool" where
  "is_space c =
     (c = 9 \<or> c = 10 \<or> c = 11 \<or> c = 12 \<or> c = 13 \<or> c = 32 \<or> c = 160 \<or> c = 5760 \<or>
      (8192 \<le> c \<and> c \<le> 8202) \<or> c = 8232 \<or> c = 8233 \<or> c = 8239 \<or> c = 8287 \<or>
      c = 12288 \<or> c = 65279)"

text \<open>The class of the hyphen-minus and the en dash U+2013.\<close>

definition is_dash :: "nat \<Rightarrow> bool" where
  "is_dash c = (c = 45 \<or> c = 8211)"

definition trim :: "jstring \<Rightarrow> jstring" where
  "trim s = rev (dropWhile is_space (rev (dropWhile is_space s)))"

text \<open>
  \<^verbatim>\<open>s.replace(pat, rep)\<close> with a string pattern: the first occurrence of \<open>pat\<close> is
  replaced, and the empty pattern occurs at index 0. The code calls it with the empty
  replacement only, so the dollar patterns of a replacement string play no part.
\<close>

fun replace_str :: "jstring \<Rightarrow> jstring \<Rightarrow> jstring \<Rightarrow> jstring" where
  "replace_str pat rep [] = (if pat = [] then rep else [])"
| "replace_str pat rep (c # cs) =
     (if take (length pat) (c # cs) = pat then rep @ drop (length pat) (c # cs)
      else c # replace_str pat rep cs)"

text \<open>
  \<^verbatim>\<open>parseInt(ds, 10)\<close> on a string of decimal digits, the only strings it is applied
  to (the groups \<^verbatim>\<open>(\d{1,2})\<close> and \<^verbatim>\<open>(\d{2})\<close>).
\<close>

definition parseInt :: "jstring \<Rightarrow> int" where
  "parseInt ds = foldl (\<lambda>n c. 10 * n + (int c - 48)) 0 ds"

subsection \<open>The regular expressions\<close>

text \<open>
  \<^verbatim>\<open>s.match(re)\<close> without the global flag finds the leftmost position where the
  expression matches: \<open>re_search m\<close> tries the matcher \<open>m\<close> at every suffix, from the
  left.
\<close>

fun re_search :: "(jstring \<Rightarrow> 'a option) \<Rightarrow> jstring \<Rightarrow> 'a option" where
  "re_search m [] = m []"
| "re_search m (c # cs) = (case m (c # cs) of Some r \<Rightarrow> Some r | None \<Rightarrow> re_search m cs)"

text \<open>\<^verbatim>\<open>:\d{2}\<close> after the hour digits \<open>h\<close>: the hour, the minute and the rest.\<close>

fun hm_tail :: "jstring \<Rightarrow> jstring \<Rightarrow> (jstring \<times> jstring \<times> jstring) option" where
  "hm_tail h (c # d # e # rest) =
     (if c = 58 \<and> is_digit d \<and> is_digit e then Some (h, [d, e], rest) else None)"
| "hm_tail h _ = None"

text \<open>
  \<^verbatim>\<open>(\d{1,2}):(\d{2})\<close> at the start of \<open>s\<close>: the quantifier is greedy, so two hour
  digits are tried first and one digit on backtracking.
\<close>

definition hm_at :: "jstring \<Rightarrow> (jstring \<times> jstring \<times> jstring) option" where
  "hm_at s =
     (case s of
        a # b # r \<Rightarrow>
          if is_digit a \<and> is_digit b then
            (case hm_tail [a, b] r of Some x \<Rightarrow> Some x | None \<Rightarrow> hm_tail [a] (b # r))
          else if is_digit a then hm_tail [a] (b # r)
          else None
      | _ \<Rightarrow> None)"

text \<open>
  \<^verbatim>\<open>(\d{1,2}:\d{2})\s*[dash]\s*(\d{1,2}:\d{2})\<close> at the start of \<open>s\<close>: the two groups
  and the rest. A greedy \<^verbatim>\<open>\s*\<close> takes all the white space; giving some back cannot
  help, since a dash or a digit has to follow.
\<close>

definition range_at :: "jstring \<Rightarrow> (jstring \<times> jstring \<times> jstring) option" where
  "range_at s =
     (case hm_at s of
        None \<Rightarrow> None
      | Some (h1, m1, r1) \<Rightarrow>
          (case dropWhile is_space r1 of
             [] \<Rightarrow> None
           | d # r2 \<Rightarrow>
               if is_dash d then
                 (case hm_at (dropWhile is_space r2) of
                    None \<Rightarrow> None
                  | Some (h2, m2, r3) \<Rightarrow> Some (h1 @ 58 # m1, h2 @ 58 # m2, r3))
               else None))"

text \<open>
  \<^verbatim>\<open>\d{1,2}:\d{2}(?:\s*[dash]\s*\d{1,2}:\d{2})?\<close> at the start of \<open>s\<close>: the matched
  text, with the optional group when it matches.
\<close>

definition time_at :: "jstring \<Rightarrow> jstring option" where
  "time_at s =
     (case hm_at s of
        None \<Rightarrow> None
      | Some (h1, m1, r1) \<Rightarrow>
          (case range_at s of
             Some (g1, g2, r3) \<Rightarrow> Some (take (length s - length r3) s)
           | None \<Rightarrow> Some (take (length s - length r1) s)))"

text \<open>The helper \<^verbatim>\<open>toMinutes\<close> (lines 372 to 377).\<close>

definition toMinutes :: "jstring \<Rightarrow> int option" where
  "toMinutes hm =
     (if hm = [] then None
      else (case re_search hm_at hm of
              None \<Rightarrow> None
            | Some (h, m, rest) \<Rightarrow> Some (parseInt h * 60 + parseInt m)))"

subsection \<open>The schedule document\<close>

text \<open>
  An element matched by \<^verbatim>\<open>.program-item, li, .program\<close>: the text of its first
  \<^verbatim>\<open>time, .program-time\<close> descendant and of its first \<^verbatim>\<open>.program-title\<close>
  descendant, when there is one, and its own text.
\<close>

record program_el =
  timeEl :: "jstring option"
  titleEl :: "jstring option"
  textContent :: jstring

text \<open>
  A \<^verbatim>\<open>.schedule-day\<close> element: \<^verbatim>\<open>dataset.day\<close> (absent or a string), \<^verbatim>\<open>id\<close> (the
  empty string when there is none) and the program elements inside, in document order.
\<close>

record schedule_day =
  dataset_day :: "jstring option"
  node_id :: jstring
  programEls :: "program_el list"

record item =
  timeText :: jstring
  titleText :: jstring

text \<open>The found program; \<open>endm\<close> is the field \<^verbatim>\<open>end\<close>.\<close>

record program =
  title :: jstring
  start :: int
  endm :: "int option"

text \<open>The returned object \<^verbatim>\<open>{ html, found }\<close>.\<close>

record result =
  html :: jstring
  found :: bool

text \<open>What the code reads of \<^verbatim>\<open>new Date()\<close>.\<close>

record date =
  getDay :: nat
  getHours :: int
  getMinutes :: int

definition daysMap :: "jstring list" where
  "daysMap = [js ''zondag'', js ''maandag'', js ''dinsdag'', js ''woensdag'',
     js ''donderdag'', js ''vrijdag'', js ''zaterdag'']"

text \<open>
  \<^verbatim>\<open>daysMap[now.getDay()]\<close>; beyond the table the read gives \<^verbatim>\<open>undefined\<close>, which as
  a property key is the string "undefined".
\<close>

definition dayKey :: "date \<Rightarrow> jstring" where
  "dayKey now = (if getDay now < length daysMap then daysMap ! getDay now else js ''undefined'')"

definition nowMinutes :: "date \<Rightarrow> int" where
  "nowMinutes now = getHours now * 60 + getMinutes now"

text \<open>
  The key of a node (line 345); \<open>toLowerCase\<close> is the platform's
  \<^verbatim>\<open>String.prototype.toLowerCase\<close>, a parameter of the model. An empty string is
  falsy.
\<close>

definition node_key :: "(jstring \<Rightarrow> jstring) \<Rightarrow> schedule_day \<Rightarrow> jstring option" where
  "node_key toLowerCase n =
     (case dataset_day n of
        Some d \<Rightarrow>
          if d \<noteq> [] then Some (toLowerCase d)
          else if node_id n \<noteq> [] then Some (toLowerCase (node_id n)) else None
      | None \<Rightarrow> if node_id n \<noteq> [] then Some (toLowerCase (node_id n)) else None)"

text \<open>
  The callback of the \<^verbatim>\<open>forEach\<close> of lines 344 to 347 on the object \<open>map\<close>: a key
  is stored when it is truthy, over whatever the key held before.
\<close>

definition put_node ::
  "(jstring \<Rightarrow> jstring) \<Rightarrow> (jstring \<rightharpoonup> schedule_day) \<Rightarrow> schedule_day \<Rightarrow> (jstring \<rightharpoonup> schedule_day)" where
  "put_node toLowerCase m n =
     (case node_key toLowerCase n of
        None \<Rightarrow> m
      | Some k \<Rightarrow> if k \<noteq> [] then m(k \<mapsto> n) else m)"

definition build_map ::
  "(jstring \<Rightarrow> jstring) \<Rightarrow> schedule_day list \<Rightarrow> (jstring \<rightharpoonup> schedule_day)" where
  "build_map toLowerCase nodes = foldl (put_node toLowerCase) Map.empty nodes"

text \<open>Lines 362 to 369: the items of a schedule node.\<close>

definition item_of :: "program_el \<Rightarrow> item" where
  "item_of el =
     (let rawText = trim (textContent el);
          timeText = (case timeEl el of
                        Some t \<Rightarrow> trim t
                      | None \<Rightarrow> (case re_search time_at rawText of Some m \<Rightarrow> m | None \<Rightarrow> []));
          titleText = (case titleEl el of
                         Some t \<Rightarrow> trim t
                       | None \<Rightarrow> trim (replace_str timeText [] rawText))
      in \<lparr>timeText = timeText, titleText = titleText\<rparr>)"

definition items_of :: "schedule_day \<Rightarrow> item list" where
  "items_of scheduleNode =
     filter (\<lambda>i. timeText i \<noteq> [] \<or> titleText i \<noteq> []) (map item_of (programEls scheduleNode))"

subsection \<open>The range pass (lines 383 to 396)\<close>

text \<open>\<^verbatim>\<open>it.titleText || 'Onbekend'\<close>.\<close>

definition title_or :: "item \<Rightarrow> jstring" where
  "title_or it = (if titleText it \<noteq> [] then titleText it else js ''Onbekend'')"

text \<open>The body of the loop for one item: the program it sets \<open>found\<close> to, if any.\<close>

definition range_hit :: "int \<Rightarrow> item \<Rightarrow> program option" where
  "range_hit nowM it =
     (case re_search range_at (timeText it) of
        None \<Rightarrow> None
      | Some (g1, g2, rest) \<Rightarrow>
          (case toMinutes g1 of
             None \<Rightarrow> None
           | Some s \<Rightarrow>
               (case toMinutes g2 of
                  None \<Rightarrow> None
                | Some e \<Rightarrow>
                    if s \<le> e then
                      (if nowM \<ge> s \<and> nowM < e
                       then Some \<lparr>title = title_or it, start = s, endm = Some e\<rparr> else None)
                    else
                      (if nowM \<ge> s \<or> nowM < e
                       then Some \<lparr>title = title_or it, start = s, endm = Some e\<rparr> else None))))"

text \<open>The loop: it stops (\<^verbatim>\<open>break\<close>) at the first item that sets \<open>found\<close>.\<close>

fun range_pass :: "int \<Rightarrow> item list \<Rightarrow> program option" where
  "range_pass nowM [] = None"
| "range_pass nowM (it # items) =
     (case range_hit nowM it of Some f \<Rightarrow> Some f | None \<Rightarrow> range_pass nowM items)"

subsection \<open>The fallback pass (lines 399 to 410)\<close>

text \<open>
  One entry of \<open>starts\<close> before the filter: the title and the start, \<open>None\<close> for
  \<^verbatim>\<open>null\<close>.
\<close>

definition start_of :: "item \<Rightarrow> jstring \<times> int option" where
  "start_of it =
     (title_or it,
      (case re_search hm_at (timeText it) of
         None \<Rightarrow> None
       | Some (h, m, rest) \<Rightarrow> toMinutes (h @ 58 # m)))"

text \<open>\<^verbatim>\<open>items.map(...).filter(i => i.start !== null)\<close>, in document order.\<close>

definition parsed_starts :: "item list \<Rightarrow> (jstring \<times> int) list" where
  "parsed_starts items =
     List.map_filter (\<lambda>p. case snd p of None \<Rightarrow> None | Some s \<Rightarrow> Some (fst p, s))
       (map start_of items)"

text \<open>
  \<^verbatim>\<open>.sort((a,b) => a.start - b.start)\<close>; the sort of an array is stable, as
  \<open>sort_key\<close> is.
\<close>

definition starts_of :: "item list \<Rightarrow> (jstring \<times> int) list" where
  "starts_of items = sort_key snd (parsed_starts items)"

text \<open>The loop of line 407, with \<open>cand\<close> as its state; \<^verbatim>\<open>break\<close> returns it.\<close>

fun scan_starts :: "int \<Rightarrow> (jstring \<times> int) list \<Rightarrow> (jstring \<times> int) option \<Rightarrow> (jstring \<times> int) option" where
  "scan_starts nowM [] cand = cand"
| "scan_starts nowM (p # ps) cand =
     (if snd p \<le> nowM then scan_starts nowM ps (Some p) else cand)"

definition fallback_pass :: "int \<Rightarrow> item list \<Rightarrow> program option" where
  "fallback_pass nowM items =
     (let starts = starts_of items in
      if starts \<noteq> [] then
        (case scan_starts nowM starts None of
           None \<Rightarrow> None
         | Some cand \<Rightarrow> Some \<lparr>title = fst cand, start = snd cand, endm = None\<rparr>)
      else None)"

text \<open>\<open>found\<close> after both passes.\<close>

definition find_now :: "int \<Rightarrow> item list \<Rightarrow> program option" where
  "find_now nowM items =
     (case range_pass nowM items of
        Some f \<Rightarrow> Some f
      | None \<Rightarrow> fallback_pass nowM items)"

subsection \<open>The helpers \<^verbatim>\<open>fmt\<close> and \<^verbatim>\<open>escapeHtml\<close> (lines 444 to 451)\<close>

text \<open>The decimal digits of a natural number.\<close>

fun dec :: "nat \<Rightarrow> jstring" where
  "dec n = (if n < 10 then [48 + n] else dec (n div 10) @ [48 + n mod 10])"

declare dec.simps [simp del]

text \<open>\<^verbatim>\<open>String(n)\<close> for an integer \<open>n\<close>.\<close>

definition String_int :: "int \<Rightarrow> jstring" where
  "String_int n = (if n < 0 then 45 # dec (nat (- n)) else dec (nat n))"

text \<open>\<^verbatim>\<open>s.padStart(2,'0')\<close>.\<close>

definition padStart2 :: "jstring \<Rightarrow> jstring" where
  "padStart2 s = (if length s \<ge> 2 then s else replicate (2 - length s) 48 @ s)"

text \<open>
  JavaScript numbers are binary64 floating point numbers. Every integer up to \<open>2^53\<close> in
  absolute value is one of them, and above that only the multiples of a power of two
  are: \<open>ulp n\<close> is the distance between neighbouring numbers at the magnitude \<open>n\<close>.
\<close>

fun ulp :: "nat \<Rightarrow> nat" where
  "ulp n = (if n < 9007199254740992 then 1 else 2 * ulp (n div 2))"

declare ulp.simps [simp del]

text \<open>
  The number an integer result is rounded to: the nearest one, and of two equally near
  the one with the even significand. An integer up to \<open>2^53\<close> is kept as it is.
\<close>

definition round_double :: "int \<Rightarrow> int" where
  "round_double x =
     (let u = int (ulp (nat \<bar>x\<bar>));
          q = \<bar>x\<bar> div u;
          r = \<bar>x\<bar> mod u;
          q' = (if 2 * r < u then q else if 2 * r > u then q + 1 else if even q then q else q + 1)
      in sgn x * (q' * u))"

text \<open>
  \<^verbatim>\<open>fmt\<close>, on an integer: the sum \<^verbatim>\<open>mins + 24*60\<close> is rounded as above, the remainder
  \<^verbatim>\<open>%\<close> of JavaScript is exact and takes the sign of the dividend (\<open>smod\<close>), and
  \<^verbatim>\<open>Math.floor(mins/60)\<close> is the floor division \<open>div\<close>.
\<close>

fun fmt :: "int option \<Rightarrow> jstring" where
  "fmt None = []"
| "fmt (Some mins0) =
     (let mins = round_double (mins0 + 24 * 60) smod (24 * 60);
          h = mins div 60;
          m = mins smod 60
      in padStart2 (String_int h) @ 58 # padStart2 (String_int m))"

definition escape_char :: "nat \<Rightarrow> jstring" where
  "escape_char c =
     (if c = 38 then js ''&amp;''
      else if c = 60 then js ''&lt;''
      else if c = 62 then js ''&gt;''
      else if c = 34 then js ''&quot;''
      else if c = 39 then js ''&#39;''
      else [c])"

definition escapeHtml :: "jstring \<Rightarrow> jstring" where
  "escapeHtml s = concat (map escape_char s)"

subsection \<open>The render payload (lines 419 to 434)\<close>

text \<open>
  \<open>timeStr\<close>: a number is truthy when it is not 0, \<^verbatim>\<open>null\<close> is falsy. The separators
  are the en dash U+2013 and the arrow U+2192.
\<close>

definition timeStr :: "program \<Rightarrow> jstring" where
  "timeStr f =
     (if start f \<noteq> 0 \<and> (case endm f of None \<Rightarrow> False | Some e \<Rightarrow> e \<noteq> 0)
      then fmt (Some (start f)) @ [32, 8211, 32] @ fmt (endm f)
      else if start f \<noteq> 0 then fmt (Some (start f)) @ [32, 8594]
      else [])"

text \<open>The template literal, cut at its two other interpolations; U+25B6 is the triangle.\<close>

definition html_head :: jstring where
  \<open>html_head =
     10 # js ''      <div style="display:flex;align-items:center;gap:12px;">'' @
     10 # js ''        <div style="width:56px;height:56px;border-radius:10px;background:linear-gradient(135deg,#f0fbff,#e6f7ff);display:flex;align-items:center;justify-content:center;font-weight:800;color:var(--accent-2);">'' @
     10 # js ''          '' @ [9654] @
     10 # js ''        </div>'' @
     10 # js ''        <div style="flex:1;">'' @
     10 # js ''          <div style="font-weight:800;font-size:1rem;">Nu: ''\<close>

definition html_mid :: jstring where
  \<open>html_mid =
     js ''</div>'' @
     10 # js ''          <div class="muted" style="font-size:.92rem;margin-top:4px;">''\<close>

definition html_tail :: jstring where
  \<open>html_tail =
     js ''</div>'' @
     10 # js ''        </div>'' @
     10 # js ''      </div>'' @
     10 # js ''    ''\<close>

definition build_html :: "program \<Rightarrow> jstring" where
  "build_html f =
     (let safeTitle = escapeHtml (if title f \<noteq> [] then title f else js ''Onbekend programma'')
      in html_head @ safeTitle @ html_mid @ timeStr f @ html_tail)"

definition nothing_html :: jstring where
  \<open>nothing_html = js ''<div class="muted">Geen programma nu</div>''\<close>

text \<open>
  \<^verbatim>\<open>renderNowPlayingToTarget\<close>: the state is the \<^verbatim>\<open>innerHTML\<close> of the element
  \<^verbatim>\<open>#now-playing\<close>, \<open>None\<close> when the document has no such element.
\<close>

definition renderNowPlayingToTarget :: "jstring \<Rightarrow> jstring option \<Rightarrow> jstring option" where
  "renderNowPlayingToTarget h t = (case t of None \<Rightarrow> None | Some old \<Rightarrow> Some h)"

subsection \<open>\<^verbatim>\<open>computeNowFromScheduleDOM\<close> and \<^verbatim>\<open>loadCurrentProgramFromPrograma\<close>\<close>

text \<open>
  The result and the new state of the target. The parameter \<^verbatim>\<open>remote\<close> of the source
  is never read and is left out.
\<close>

definition computeNowFromScheduleDOM ::
  "(jstring \<Rightarrow> jstring) \<Rightarrow> date \<Rightarrow> schedule_day list \<Rightarrow> jstring option \<Rightarrow> result \<times> jstring option" where
  "computeNowFromScheduleDOM toLowerCase now nodes target =
     (case build_map toLowerCase nodes (dayKey now) of
        None \<Rightarrow>
          (let out = \<lparr>html = nothing_html, found = False\<rparr>
           in (out, renderNowPlayingToTarget (html out) target))
      | Some scheduleNode \<Rightarrow>
          (case find_now (nowMinutes now) (items_of scheduleNode) of
             None \<Rightarrow>
               (let out = \<lparr>html = nothing_html, found = False\<rparr>
                in (out, renderNowPlayingToTarget (html out) target))
           | Some f \<Rightarrow>
               (let h = build_html f
                in (\<lparr>html = h, found = True\<rparr>, renderNowPlayingToTarget h target))))"

text \<open>
  The outcome of \<^verbatim>\<open>fetch('programma.html')\<close>: the promise is rejected, or it gives a
  response with \<^verbatim>\<open>ok\<close>, \<^verbatim>\<open>status\<close> and a body; the body is \<open>None\<close> when reading the text
  fails, and otherwise the \<^verbatim>\<open>.schedule-day\<close> elements of the parsed document.
\<close>

datatype fetched = Rejected | Response bool nat "schedule_day list option"

datatype js_error = NetworkError | FetchFailed nat | BodyError | NoScheduleNodes

text \<open>The body of the \<^verbatim>\<open>try\<close> block (lines 317 to 324); a \<^verbatim>\<open>throw\<close> is \<open>Inl\<close>.\<close>

definition fetch_and_compute ::
  "(jstring \<Rightarrow> jstring) \<Rightarrow> date \<Rightarrow> fetched \<Rightarrow> jstring option \<Rightarrow> js_error + result \<times> jstring option" where
  "fetch_and_compute toLowerCase now resp target =
     (case resp of
        Rejected \<Rightarrow> Inl NetworkError
      | Response ok status body \<Rightarrow>
          if \<not> ok then Inl (FetchFailed status)
          else (case body of
                  None \<Rightarrow> Inl BodyError
                | Some remoteNodes \<Rightarrow>
                    if remoteNodes = [] then Inl NoScheduleNodes
                    else Inr (computeNowFromScheduleDOM toLowerCase now remoteNodes target)))"

text \<open>
  \<^verbatim>\<open>loadCurrentProgramFromPrograma\<close>: what its promise resolves to, and the state of
  the target. \<open>localNodes\<close> are the \<^verbatim>\<open>.schedule-day\<close> elements of the current document;
  the fetch happens only when there are none.
\<close>

definition loadCurrentProgramFromPrograma ::
  "(jstring \<Rightarrow> jstring) \<Rightarrow> date \<Rightarrow> schedule_day list \<Rightarrow> fetched \<Rightarrow> jstring option \<Rightarrow> result \<times> jstring option" where
  "loadCurrentProgramFromPrograma toLowerCase now localNodes resp target =
     (if localNodes \<noteq> [] then computeNowFromScheduleDOM toLowerCase now localNodes target
      else (case fetch_and_compute toLowerCase now resp target of
              Inr r \<Rightarrow> r
            | Inl err \<Rightarrow>
                (\<lparr>html = nothing_html, found = False\<rparr>,
                 renderNowPlayingToTarget nothing_html target)))"

text \<open>A lower-casing of the ASCII letters, for concrete inputs.\<close>

definition ascii_lower :: "jstring \<Rightarrow> jstring" where
  "ascii_lower s = map (\<lambda>c. if 65 \<le> c \<and> c \<le> 90 then c + 32 else c) s"

subsection \<open>Example inputs\<close>

definition ex_ochtend :: item where
  "ex_ochtend = \<lparr>timeText = js ''08:00-09:00'', titleText = js ''Ochtendshow''\<rparr>"

definition ex_muziek :: item where
  "ex_muziek = \<lparr>timeText = js ''09:00 - 10:30'', titleText = js ''Muziek''\<rparr>"

text \<open>A range over midnight, written with an en dash.\<close>

definition ex_nacht :: item where
  "ex_nacht = \<lparr>timeText = js ''23:00'' @ [32, 8211, 32] @ js ''01:30'', titleText = js ''Nacht''\<rparr>"

definition ex_laat :: item where
  "ex_laat = \<lparr>timeText = js ''09:10-11:00'', titleText = js ''Laat''\<rparr>"

text \<open>The three point entries of the fallback example, out of order.\<close>

definition ex_points :: "item list" where
  "ex_points =
     [\<lparr>timeText = js ''09:00'', titleText = js ''Negen''\<rparr>,
      \<lparr>timeText = js ''08:00'', titleText = js ''Acht''\<rparr>,
      \<lparr>timeText = js ''10:00'', titleText = js ''Tien''\<rparr>]"

text \<open>
  The schedule of the spec's end-to-end example: Wednesday, 09:15, and a section
  \<^verbatim>\<open>data-day="Woensdag"\<close> whose first entry is plain text and whose second has a
  \<^verbatim>\<open>time\<close> and a \<^verbatim>\<open>.program-title\<close> element.
\<close>

definition ex_now :: date where
  "ex_now = \<lparr>getDay = 3, getHours = 9, getMinutes = 15\<rparr>"

definition ex_woensdag :: schedule_day where
  "ex_woensdag =
     \<lparr>dataset_day = Some (js ''Woensdag''), node_id = [],
      programEls =
        [\<lparr>timeEl = None, titleEl = None, textContent = js '' 08:00-09:00 Ochtendshow ''\<rparr>,
         \<lparr>timeEl = Some (js ''09:00 - 10:30''), titleEl = Some (js ''Muziek''),
          textContent = js ''09:00 - 10:30 Muziek''\<rparr>]\<rparr>"

text \<open>An earlier section with the same key, given by its \<^verbatim>\<open>id\<close>.\<close>

definition ex_woensdag_old :: schedule_day where
  "ex_woensdag_old =
     \<lparr>dataset_day = None, node_id = js ''woensdag'',
      programEls = [\<lparr>timeEl = None, titleEl = None, textContent = js ''09:00 - 10:00 Oud''\<rparr>]\<rparr>"

text \<open>A section without entries, and one whose only entry starts later.\<close>

definition ex_leeg :: schedule_day where
  "ex_leeg = \<lparr>dataset_day = Some (js ''woensdag''), node_id = [], programEls = []\<rparr>"

definition ex_later :: schedule_day where
  "ex_later =
     \<lparr>dataset_day = Some (js ''woensdag''), node_id = [],
      programEls = [\<lparr>timeEl = None, titleEl = None, textContent = js ''10:00 Later''\<rparr>]\<rparr>"

definition ex_donderdag :: schedule_day where
  "ex_donderdag =
     \<lparr>dataset_day = Some (js ''donderdag''), node_id = js ''do'',
      programEls = [\<lparr>timeEl = None, titleEl = None, textContent = js ''09:00 - 10:00 Morgen''\<rparr>]\<rparr>"

text \<open>A section whose entry has markup in its title.\<close>

definition ex_script :: schedule_day where
  "ex_script =
     \<lparr>dataset_day = Some (js ''woensdag''), node_id = [],
      programEls =
        [\<lparr>timeEl = Some (js ''09:00 - 10:30''), titleEl = Some (js ''<script>''),
          textContent = js ''09:00 - 10:30 <script>''\<rparr>]\<rparr>"

text \<open>Entries that start or end at midnight, and one with an hour and a minute out of range.\<close>

definition ex_middernacht :: item where
  "ex_middernacht = \<lparr>timeText = js ''00:00 - 01:00'', titleText = js ''Nacht''\<rparr>"

definition ex_avond :: item where
  "ex_avond = \<lparr>timeText = js ''22:00 - 00:00'', titleText = js ''Avond''\<rparr>"

definition ex_nul :: item where
  "ex_nul = \<lparr>timeText = js ''00:00'', titleText = js ''Nul''\<rparr>"

definition ex_overflow :: item where
  "ex_overflow = \<lparr>timeText = js ''00:00 - 25:99'', titleText = js ''Lang''\<rparr>"

text \<open>Two range entries, neither of which contains 10:00.\<close>

definition ex_vroeg :: item where
  "ex_vroeg = \<lparr>timeText = js ''08:00 - 09:00'', titleText = js ''Vroeg''\<rparr>"

definition ex_middag :: item where
  "ex_middag = \<lparr>timeText = js ''14:00 - 15:00'', titleText = js ''Middag''\<rparr>"

subsection \<open>The words of the spec\<close>

text \<open>
  The point form of the spec, "a single HH:MM start time with no declared end": the time
  text holds a time and no range. It is compared with the entries the fallback pass
  of the code takes.
\<close>

definition spec_point_form :: "item \<Rightarrow> bool" where
  "spec_point_form it =
     (re_search hm_at (timeText it) \<noteq> None \<and> re_search range_at (timeText it) = None)"


text \<open>
  The two-digit, zero-padded decimal of a number from 0 to 99, as the spec describes the
  output of \<^verbatim>\<open>fmt\<close>; it is compared with what \<open>fmt\<close> computes.
\<close>

definition spec_two_digits :: "int \<Rightarrow> jstring" where
  "spec_two_digits n = [48 + nat (n div 10), 48 + nat (n mod 10)]"

section \<open>The range pass\<close>

text \<open>Unfolding the matchers on a concrete string.\<close>

lemmas re_eval = js_def is_digit_def is_space_def is_dash_def hm_at_def range_at_def toMinutes_def
  parseInt_def

text \<open>Items that set nothing are passed over.\<close>

lemma range_pass_skip:
  "\<forall>x\<in>set pre. range_hit nowM x = None \<Longrightarrow> range_pass nowM (pre @ items) = range_pass nowM items"
  by (induction pre) simp_all

lemma range_hit_parsed:
  assumes "re_search range_at (timeText it) = Some (g1, g2, rest)"
    and "toMinutes g1 = Some s" and "toMinutes g2 = Some e"
  shows "range_hit nowM it =
     (if (if s \<le> e then s \<le> nowM \<and> nowM < e else s \<le> nowM \<or> nowM < e)
      then Some \<lparr>title = title_or it, start = s, endm = Some e\<rparr> else None)"
  using assms by (simp add: range_hit_def)

lemma ex_ochtend_range:
  "re_search range_at (timeText ex_ochtend) = Some (js ''08:00'', js ''09:00'', [])"
  by (simp add: ex_ochtend_def re_eval)

lemma ex_muziek_range:
  "re_search range_at (timeText ex_muziek) = Some (js ''09:00'', js ''10:30'', [])"
  by (simp add: ex_muziek_def re_eval)

lemma ex_nacht_range:
  "re_search range_at (timeText ex_nacht) = Some (js ''23:00'', js ''01:30'', [])"
  by (simp add: ex_nacht_def re_eval)

lemma ex_laat_range:
  "re_search range_at (timeText ex_laat) = Some (js ''09:10'', js ''11:00'', [])"
  by (simp add: ex_laat_def re_eval)

lemma ex_toMinutes:
  "toMinutes (js ''08:00'') = Some 480" "toMinutes (js ''09:00'') = Some 540"
  "toMinutes (js ''10:30'') = Some 630" "toMinutes (js ''23:00'') = Some 1380"
  "toMinutes (js ''01:30'') = Some 90" "toMinutes (js ''09:10'') = Some 550"
  "toMinutes (js ''11:00'') = Some 660"
  by (simp_all add: re_eval)

lemma ex_titles:
  "title_or ex_ochtend = js ''Ochtendshow''" "title_or ex_muziek = js ''Muziek''"
  "title_or ex_nacht = js ''Nacht''" "title_or ex_laat = js ''Laat''"
  by (simp_all add: title_or_def ex_ochtend_def ex_muziek_def ex_nacht_def ex_laat_def js_def)

lemma ex_ochtend_miss: "range_hit 555 ex_ochtend = None"
  using range_hit_parsed [OF ex_ochtend_range ex_toMinutes(1) ex_toMinutes(2), of 555] by simp

text \<open>
  Claim C1. An entry whose time text matches the range expression with start \<open>s\<close> and end
  \<open>e\<close>, \<open>s \<le> e\<close>, is selected for \<open>nowM\<close> exactly when \<open>s \<le> nowM < e\<close>: the loop body
  sets \<open>found\<close> to it exactly then, and the loop over a list whose earlier items set
  nothing returns it exactly then (and goes on to the later items otherwise). The end
  \<open>nowM = e\<close> never matches; the start \<open>nowM = s\<close> matches whenever the range is not
  empty.
\<close>

theorem range_nonwrapping:
  assumes "re_search range_at (timeText it) = Some (g1, g2, rest)"
    and "toMinutes g1 = Some s" and "toMinutes g2 = Some e"
    and "s \<le> e"
    and "\<forall>x\<in>set pre. range_hit nowM x = None"
  shows "(range_hit nowM it = Some \<lparr>title = title_or it, start = s, endm = Some e\<rparr>
            \<longleftrightarrow> s \<le> nowM \<and> nowM < e) \<and>
         (range_hit nowM it = None \<longleftrightarrow> \<not> (s \<le> nowM \<and> nowM < e)) \<and>
         range_pass nowM (pre @ it # post) =
           (if s \<le> nowM \<and> nowM < e
            then Some \<lparr>title = title_or it, start = s, endm = Some e\<rparr>
            else range_pass nowM post) \<and>
         range_hit e it = None \<and>
         (s < e \<longrightarrow> range_hit s it = Some \<lparr>title = title_or it, start = s, endm = Some e\<rparr>)"
proof -
  have hit: "\<And>t. range_hit t it =
      (if s \<le> t \<and> t < e then Some \<lparr>title = title_or it, start = s, endm = Some e\<rparr> else None)"
    using range_hit_parsed [OF assms(1-3)] assms(4) by simp
  have pass: "range_pass nowM (pre @ it # post) = range_pass nowM (it # post)"
    using assms(5) by (rule range_pass_skip)
  show ?thesis
    by (simp add: hit pass)
qed

text \<open>
  The example of the spec: at 09:15, after the entry 08:00-09:00, the entry 09:00 - 10:30
  is selected; it is not at 10:30 and it is at 09:00.
\<close>

theorem range_nonwrapping_witness:
  "range_pass 555 ([ex_ochtend] @ ex_muziek # []) =
     Some \<lparr>title = js ''Muziek'', start = 540, endm = Some 630\<rparr> \<and>
   range_hit 630 ex_muziek = None \<and>
   range_hit 540 ex_muziek = Some \<lparr>title = js ''Muziek'', start = 540, endm = Some 630\<rparr>"
proof -
  have le: "(540::int) \<le> 630" by simp
  have pre: "\<forall>x\<in>set [ex_ochtend]. range_hit 555 x = None"
    by (simp add: ex_ochtend_miss)
  from range_nonwrapping [OF ex_muziek_range ex_toMinutes(2) ex_toMinutes(3) le pre, of "[]"]
  show ?thesis by (simp add: ex_titles)
qed

text \<open>
  Claim C2. An entry whose time text matches the range expression with start \<open>s\<close> and end
  \<open>e\<close>, \<open>s > e\<close> (the range crosses midnight), is selected for \<open>nowM\<close> exactly when
  \<open>nowM \<ge> s\<close> or \<open>nowM < e\<close>.
\<close>

theorem range_wrapping:
  assumes "re_search range_at (timeText it) = Some (g1, g2, rest)"
    and "toMinutes g1 = Some s" and "toMinutes g2 = Some e"
    and "s > e"
    and "\<forall>x\<in>set pre. range_hit nowM x = None"
  shows "(range_hit nowM it = Some \<lparr>title = title_or it, start = s, endm = Some e\<rparr>
            \<longleftrightarrow> nowM \<ge> s \<or> nowM < e) \<and>
         (range_hit nowM it = None \<longleftrightarrow> \<not> (nowM \<ge> s \<or> nowM < e)) \<and>
         range_pass nowM (pre @ it # post) =
           (if nowM \<ge> s \<or> nowM < e
            then Some \<lparr>title = title_or it, start = s, endm = Some e\<rparr>
            else range_pass nowM post)"
proof -
  have hit: "range_hit nowM it =
      (if nowM \<ge> s \<or> nowM < e then Some \<lparr>title = title_or it, start = s, endm = Some e\<rparr> else None)"
    using range_hit_parsed [OF assms(1-3), of nowM] assms(4) by simp
  have pass: "range_pass nowM (pre @ it # post) = range_pass nowM (it # post)"
    using assms(5) by (rule range_pass_skip)
  show ?thesis
    by (simp add: hit pass)
qed

text \<open>At 00:45 the entry 23:00 to 01:30 is selected.\<close>

theorem range_wrapping_witness:
  "range_pass 45 ([] @ ex_nacht # [ex_ochtend]) =
     Some \<lparr>title = js ''Nacht'', start = 1380, endm = Some 90\<rparr> \<and>
   range_hit 45 ex_nacht = Some \<lparr>title = js ''Nacht'', start = 1380, endm = Some 90\<rparr>"
proof -
  have gt: "(1380::int) > 90" by simp
  have pre: "\<forall>x\<in>set []. range_hit 45 x = None" by simp
  from range_wrapping [OF ex_nacht_range ex_toMinutes(4) ex_toMinutes(5) gt pre, of "[ex_ochtend]"]
  show ?thesis by (simp add: ex_titles)
qed

text \<open>
  Claim C3. The range pass returns the first item, in list order, that contains \<open>nowM\<close>:
  whatever follows it (\<open>post\<close>, matching or not) is not looked at, and the result of the
  two passes together is that item.
\<close>

theorem first_match_wins:
  assumes "\<forall>x\<in>set pre. range_hit nowM x = None"
    and "range_hit nowM it = Some f"
  shows "range_pass nowM (pre @ it # post) = Some f \<and>
         range_pass nowM (pre @ it # post) = range_pass nowM (pre @ [it]) \<and>
         find_now nowM (pre @ it # post) = Some f"
proof -
  have "range_pass nowM (pre @ it # post) = range_pass nowM (it # post)"
    using assms(1) by (rule range_pass_skip)
  moreover have "range_pass nowM (pre @ [it]) = range_pass nowM [it]"
    using assms(1) by (rule range_pass_skip)
  ultimately show ?thesis
    using assms(2) by (simp add: find_now_def)
qed

lemma ex_muziek_hit:
  "range_hit 555 ex_muziek = Some \<lparr>title = js ''Muziek'', start = 540, endm = Some 630\<rparr>"
  using range_hit_parsed [OF ex_muziek_range ex_toMinutes(2) ex_toMinutes(3), of 555]
  by (simp add: ex_titles)

lemma ex_laat_hit:
  "range_hit 555 ex_laat = Some \<lparr>title = js ''Laat'', start = 550, endm = Some 660\<rparr>"
  using range_hit_parsed [OF ex_laat_range ex_toMinutes(6) ex_toMinutes(7), of 555]
  by (simp add: ex_titles)

text \<open>
  At 09:15 both 09:00 - 10:30 and 09:10-11:00 contain the time; the earlier one is
  returned.
\<close>

theorem first_match_wins_witness:
  "range_hit 555 ex_laat = Some \<lparr>title = js ''Laat'', start = 550, endm = Some 660\<rparr> \<and>
   range_pass 555 ([ex_ochtend] @ ex_muziek # [ex_laat]) =
     Some \<lparr>title = js ''Muziek'', start = 540, endm = Some 630\<rparr> \<and>
   find_now 555 ([ex_ochtend] @ ex_muziek # [ex_laat]) =
     Some \<lparr>title = js ''Muziek'', start = 540, endm = Some 630\<rparr>"
proof -
  have pre: "\<forall>x\<in>set [ex_ochtend]. range_hit 555 x = None"
    by (simp add: ex_ochtend_miss)
  from first_match_wins [OF pre ex_muziek_hit, of "[ex_laat]"]
  show ?thesis by (simp add: ex_laat_hit)
qed
section \<open>What the expressions match\<close>

text \<open>The expression for a time matches one or two hour digits and two minute digits.\<close>

lemma hm_tail_Some:
  "hm_tail h r = Some (h', m, rest) \<Longrightarrow> h' = h \<and> length m = 2 \<and> (\<forall>c\<in>set m. is_digit c)"
  by (cases "(h, r)" rule: hm_tail.cases) (auto split: if_splits)

lemma hm_at_Some:
  assumes "hm_at s = Some (h, m, rest)"
  shows "h \<noteq> [] \<and> length h \<le> 2 \<and> (\<forall>c\<in>set h. is_digit c) \<and>
         length m = 2 \<and> (\<forall>c\<in>set m. is_digit c)"
proof (cases s)
  case Nil
  with assms show ?thesis by (simp add: hm_at_def)
next
  case (Cons a s')
  show ?thesis
  proof (cases s')
    case Nil
    with Cons assms show ?thesis by (simp add: hm_at_def)
  next
    case (Cons b r)
    with \<open>s = a # s'\<close> assms
    have "(is_digit a \<and> is_digit b \<and> hm_tail [a, b] r = Some (h, m, rest)) \<or>
          (is_digit a \<and> hm_tail [a] (b # r) = Some (h, m, rest))"
      by (auto simp: hm_at_def split: if_splits option.splits)
    then show ?thesis
      by (auto dest!: hm_tail_Some)
  qed
qed

text \<open>A match of the search is a match at some suffix.\<close>

lemma re_search_Some: "re_search f s = Some x \<Longrightarrow> \<exists>s'. f s' = Some x"
  by (induction s) (auto split: option.splits)

text \<open>
  The text of a matched time, searched again as \<open>toMinutes\<close> does, gives the same hour
  and minute.
\<close>

lemma not_digit_colon: "\<not> is_digit 58"
  by (simp add: is_digit_def)

lemma toMinutes_group:
  assumes "hm_at s = Some (h, m, rest)"
  shows "toMinutes (h @ 58 # m) = Some (parseInt h * 60 + parseInt m)"
proof (cases s)
  case Nil
  with assms show ?thesis by (simp add: hm_at_def)
next
  case (Cons a s')
  show ?thesis
  proof (cases s')
    case Nil
    with Cons assms show ?thesis by (simp add: hm_at_def)
  next
    case (Cons b r)
    with \<open>s = a # s'\<close> assms
    have "(is_digit a \<and> is_digit b \<and> hm_tail [a, b] r = Some (h, m, rest)) \<or>
          (is_digit a \<and> hm_tail [a] (b # r) = Some (h, m, rest))"
      by (auto simp: hm_at_def split: if_splits option.splits)
    then show ?thesis
    proof
      assume two: "is_digit a \<and> is_digit b \<and> hm_tail [a, b] r = Some (h, m, rest)"
      then obtain d e where "h = [a, b]" "m = [d, e]" "is_digit d" "is_digit e"
        by (cases "([a, b], r)" rule: hm_tail.cases) (auto split: if_splits)
      with two show ?thesis
        by (simp add: toMinutes_def hm_at_def)
    next
      assume one: "is_digit a \<and> hm_tail [a] (b # r) = Some (h, m, rest)"
      then obtain d e where "h = [a]" "m = [d, e]" "is_digit d" "is_digit e"
        by (cases "([a], b # r)" rule: hm_tail.cases) (auto split: if_splits)
      with one show ?thesis
        by (simp add: toMinutes_def hm_at_def not_digit_colon)
    qed
  qed
qed

text \<open>Where the range expression matches, the expression for a time matches too.\<close>

lemma re_search_range_hm:
  "re_search range_at s = Some x \<Longrightarrow> re_search hm_at s \<noteq> None"
proof (induction s)
  case Nil
  then show ?case by (simp add: range_at_def hm_at_def)
next
  case (Cons c cs)
  show ?case
  proof (cases "hm_at (c # cs)")
    case (Some y)
    then show ?thesis by simp
  next
    case None
    then have "range_at (c # cs) = None" by (simp add: range_at_def)
    with Cons.prems have "re_search range_at cs = Some x" by simp
    then have "re_search hm_at cs \<noteq> None" by (rule Cons.IH)
    with None show ?thesis by simp
  qed
qed
section \<open>The fallback pass\<close>

text \<open>In a list sorted by a key, the last element has the greatest key.\<close>

lemma sorted_last_greatest:
  "sorted (map f ys) \<Longrightarrow> y \<in> set ys \<Longrightarrow> f y \<le> f (last ys)"
  by (induction ys) (auto split: if_splits)

text \<open>
  On a sorted list the loop of line 407 returns the last entry that started by \<open>nowM\<close>:
  once an entry starts later, all that follow do.
\<close>

lemma scan_starts_sorted:
  "sorted (map snd xs) \<Longrightarrow>
   scan_starts nowM xs cand =
     (if filter (\<lambda>p. snd p \<le> nowM) xs = [] then cand
      else Some (last (filter (\<lambda>p. snd p \<le> nowM) xs)))"
proof (induction xs arbitrary: cand)
  case Nil
  then show ?case by simp
next
  case (Cons p ps)
  show ?case
  proof (cases "snd p \<le> nowM")
    case True
    with Cons show ?thesis by simp
  next
    case False
    with Cons.prems have "\<forall>q\<in>set ps. \<not> snd q \<le> nowM" by auto
    then have "filter (\<lambda>p. snd p \<le> nowM) ps = []" by (simp add: filter_empty_conv)
    with False show ?thesis by simp
  qed
qed

lemma parsed_starts_iff:
  "(t, s) \<in> set (parsed_starts items) \<longleftrightarrow> (\<exists>it\<in>set items. start_of it = (t, Some s))"
proof (induction items)
  case Nil
  then show ?case by (simp add: parsed_starts_def)
next
  case (Cons a items)
  have step: "parsed_starts (a # items) =
      (case snd (start_of a) of None \<Rightarrow> parsed_starts items
       | Some s' \<Rightarrow> (fst (start_of a), s') # parsed_starts items)"
    by (simp add: parsed_starts_def split: option.splits)
  show ?case
    using Cons.IH by (cases "start_of a") (auto simp: step split: option.splits)
qed

lemma fallback_pass_eq:
  "fallback_pass nowM items =
     (let ys = filter (\<lambda>p. snd p \<le> nowM) (starts_of items) in
      if ys = [] then None
      else Some \<lparr>title = fst (last ys), start = snd (last ys), endm = None\<rparr>)"
proof -
  have "sorted (map snd (starts_of items))"
    by (simp add: starts_of_def)
  then show ?thesis
    by (auto simp: fallback_pass_def Let_def scan_starts_sorted)
qed

lemma fallback_pass_Some:
  assumes "fallback_pass nowM items = Some f"
  shows "endm f = None \<and> (title f, start f) \<in> set (parsed_starts items) \<and> start f \<le> nowM \<and>
         (\<forall>p\<in>set (parsed_starts items). snd p \<le> nowM \<longrightarrow> snd p \<le> start f)"
proof -
  define ys where "ys = filter (\<lambda>p. snd p \<le> nowM) (starts_of items)"
  have sorted_ys: "sorted (map snd ys)"
    unfolding ys_def starts_of_def by (simp add: sorted_filter)
  have set_ys: "set ys = {p \<in> set (parsed_starts items). snd p \<le> nowM}"
    unfolding ys_def starts_of_def by auto
  from assms have ne: "ys \<noteq> []" and f: "f = \<lparr>title = fst (last ys), start = snd (last ys), endm = None\<rparr>"
    by (auto simp: fallback_pass_eq Let_def ys_def split: if_splits)
  from ne have "last ys \<in> set ys" by simp
  with set_ys have mem: "last ys \<in> set (parsed_starts items)" and le: "snd (last ys) \<le> nowM"
    by auto
  have "\<forall>p\<in>set (parsed_starts items). snd p \<le> nowM \<longrightarrow> snd p \<le> snd (last ys)"
  proof (intro ballI impI)
    fix p assume "p \<in> set (parsed_starts items)" "snd p \<le> nowM"
    then have "p \<in> set ys" using set_ys by simp
    with sorted_ys show "snd p \<le> snd (last ys)" by (rule sorted_last_greatest)
  qed
  with mem le show ?thesis by (simp add: f)
qed

lemma fallback_pass_None:
  "fallback_pass nowM items = None \<longleftrightarrow> (\<forall>p\<in>set (parsed_starts items). nowM < snd p)"
  by (auto simp: fallback_pass_eq Let_def starts_of_def filter_empty_conv not_le not_less)

text \<open>
  The entries the fallback pass takes, in terms of the time expression: every entry
  whose time text holds a time, with the first such time as its start.
\<close>

lemma parsed_starts_matched:
  "(t, s) \<in> set (parsed_starts items) \<longleftrightarrow>
     (\<exists>it\<in>set items. \<exists>h m rest.
        re_search hm_at (timeText it) = Some (h, m, rest) \<and>
        t = title_or it \<and> s = parseInt h * 60 + parseInt m)"
proof
  assume "(t, s) \<in> set (parsed_starts items)"
  then obtain it where it: "it \<in> set items" and so: "start_of it = (t, Some s)"
    using parsed_starts_iff by blast
  from so obtain h m rest where re: "re_search hm_at (timeText it) = Some (h, m, rest)"
    and tm: "toMinutes (h @ 58 # m) = Some s" and ti: "t = title_or it"
    by (auto simp: start_of_def split: option.splits)
  from re have "\<exists>s'. hm_at s' = Some (h, m, rest)" by (rule re_search_Some)
  then obtain s' where "hm_at s' = Some (h, m, rest)" ..
  then have "toMinutes (h @ 58 # m) = Some (parseInt h * 60 + parseInt m)"
    by (rule toMinutes_group)
  with tm have "s = parseInt h * 60 + parseInt m" by simp
  with it re ti show "\<exists>it\<in>set items. \<exists>h m rest.
        re_search hm_at (timeText it) = Some (h, m, rest) \<and>
        t = title_or it \<and> s = parseInt h * 60 + parseInt m"
    by blast
next
  assume "\<exists>it\<in>set items. \<exists>h m rest.
        re_search hm_at (timeText it) = Some (h, m, rest) \<and>
        t = title_or it \<and> s = parseInt h * 60 + parseInt m"
  then obtain it h m rest where it: "it \<in> set items"
    and re: "re_search hm_at (timeText it) = Some (h, m, rest)"
    and ti: "t = title_or it" and s: "s = parseInt h * 60 + parseInt m"
    by blast
  from re have "\<exists>s'. hm_at s' = Some (h, m, rest)" by (rule re_search_Some)
  then obtain s' where "hm_at s' = Some (h, m, rest)" ..
  then have "toMinutes (h @ 58 # m) = Some (parseInt h * 60 + parseInt m)"
    by (rule toMinutes_group)
  with re ti s have "start_of it = (t, Some s)"
    by (simp add: start_of_def)
  with it show "(t, s) \<in> set (parsed_starts items)"
    using parsed_starts_iff by blast
qed

text \<open>
  Claim C4, as the code has it. The fallback pass takes every entry whose time text
  holds a time HH:MM, a point entry or a range entry alike, with the first time in the
  text as its start (\<open>parsed_starts\<close>, in document order). It sorts them ascending by
  start and returns one with the greatest start not after \<open>nowM\<close>, whatever the document
  order, as a program without end. It finds nothing exactly when every such start is
  after \<open>nowM\<close>, which includes the case of no entry with a time. When the range pass
  found nothing, the result of the two passes is the fallback's, and when the fallback
  finds nothing either the returned object has \<open>found = false\<close>.
\<close>

theorem fallback_greatest_start:
  "(fallback_pass nowM items = Some f \<longrightarrow>
      endm f = None \<and> (title f, start f) \<in> set (parsed_starts items) \<and> start f \<le> nowM \<and>
      (\<forall>p\<in>set (parsed_starts items). snd p \<le> nowM \<longrightarrow> snd p \<le> start f)) \<and>
   (fallback_pass nowM items = None \<longleftrightarrow> (\<forall>p\<in>set (parsed_starts items). nowM < snd p)) \<and>
   ((t, s) \<in> set (parsed_starts items) \<longleftrightarrow>
      (\<exists>it\<in>set items. \<exists>h m rest.
         re_search hm_at (timeText it) = Some (h, m, rest) \<and>
         t = title_or it \<and> s = parseInt h * 60 + parseInt m)) \<and>
   (re_search range_at (timeText it) = Some (g1, g2, rest') \<and> it \<in> set items \<longrightarrow>
      (\<exists>s. (title_or it, s) \<in> set (parsed_starts items))) \<and>
   sorted (map snd (starts_of items)) \<and> set (starts_of items) = set (parsed_starts items) \<and>
   (range_pass nowM items = None \<longrightarrow> find_now nowM items = fallback_pass nowM items) \<and>
   (build_map lc nodes (dayKey now) = Some node \<and> range_pass (nowMinutes now) (items_of node) = None \<and>
    (\<forall>p\<in>set (parsed_starts (items_of node)). nowMinutes now < snd p) \<longrightarrow>
      found (fst (computeNowFromScheduleDOM lc now nodes target)) = False)"
proof -
  have a: "fallback_pass nowM items = Some f \<longrightarrow>
      endm f = None \<and> (title f, start f) \<in> set (parsed_starts items) \<and> start f \<le> nowM \<and>
      (\<forall>p\<in>set (parsed_starts items). snd p \<le> nowM \<longrightarrow> snd p \<le> start f)"
    using fallback_pass_Some by blast
  have b: "sorted (map snd (starts_of items))" "set (starts_of items) = set (parsed_starts items)"
    by (simp_all add: starts_of_def)
  have c: "range_pass nowM items = None \<longrightarrow> find_now nowM items = fallback_pass nowM items"
    by (simp add: find_now_def)
  have d: "build_map lc nodes (dayKey now) = Some node \<and> range_pass (nowMinutes now) (items_of node) = None \<and>
    (\<forall>p\<in>set (parsed_starts (items_of node)). nowMinutes now < snd p) \<longrightarrow>
      found (fst (computeNowFromScheduleDOM lc now nodes target)) = False"
  proof (intro impI, elim conjE)
    assume m: "build_map lc nodes (dayKey now) = Some node"
      and r: "range_pass (nowMinutes now) (items_of node) = None"
      and p: "\<forall>p\<in>set (parsed_starts (items_of node)). nowMinutes now < snd p"
    from p have "fallback_pass (nowMinutes now) (items_of node) = None"
      by (simp add: fallback_pass_None)
    with m r show "found (fst (computeNowFromScheduleDOM lc now nodes target)) = False"
      by (simp add: computeNowFromScheduleDOM_def find_now_def Let_def)
  qed
  have e: "re_search range_at (timeText it) = Some (g1, g2, rest') \<and> it \<in> set items \<longrightarrow>
      (\<exists>s. (title_or it, s) \<in> set (parsed_starts items))"
  proof (intro impI, elim conjE)
    assume r: "re_search range_at (timeText it) = Some (g1, g2, rest')" and i: "it \<in> set items"
    from r have "re_search hm_at (timeText it) \<noteq> None" by (rule re_search_range_hm)
    then obtain h m rest where "re_search hm_at (timeText it) = Some (h, m, rest)"
      by (cases "re_search hm_at (timeText it)") auto
    with i have "(title_or it, parseInt h * 60 + parseInt m) \<in> set (parsed_starts items)"
      unfolding parsed_starts_matched by blast
    then show "\<exists>s. (title_or it, s) \<in> set (parsed_starts items)" ..
  qed
  note f = fallback_pass_None [of nowM items]
  note g = parsed_starts_matched [of t s items]
  from a f g e b c d show ?thesis by (intro conjI)
qed

lemma ex_points_parsed:
  "parsed_starts ex_points = [(js ''Negen'', 540), (js ''Acht'', 480), (js ''Tien'', 600)]"
  by (simp add: ex_points_def parsed_starts_def start_of_def title_or_def re_eval)

lemma ex_points_fallback:
  "fallback_pass 570 ex_points = Some \<lparr>title = js ''Negen'', start = 540, endm = None\<rparr>"
  by (simp add: fallback_pass_def starts_of_def ex_points_parsed)

lemma ex_points_no_range: "range_pass 570 ex_points = None"
  by (simp add: ex_points_def range_hit_def re_eval)

lemma ex_ranges_parsed:
  "parsed_starts [ex_vroeg, ex_middag] = [(js ''Vroeg'', 480), (js ''Middag'', 840)]"
  by (simp add: ex_vroeg_def ex_middag_def parsed_starts_def start_of_def title_or_def re_eval)

lemma ex_ranges_no_range: "range_pass 600 [ex_vroeg, ex_middag] = None"
  by (simp add: ex_vroeg_def ex_middag_def range_hit_def re_eval)

lemma ex_ranges_fallback:
  "fallback_pass 600 [ex_vroeg, ex_middag] = Some \<lparr>title = js ''Vroeg'', start = 480, endm = None\<rparr>"
  by (simp add: fallback_pass_def starts_of_def ex_ranges_parsed)

lemma ex_vroeg_range:
  "re_search range_at (timeText ex_vroeg) = Some (js ''08:00'', js ''09:00'', [])"
  by (simp add: ex_vroeg_def re_eval)

text \<open>
  The example of the spec: with starts 09:00, 08:00, 10:00 in this order, at 09:30 the
  09:00 entry is selected; at 07:50, and on the empty list, nothing is. The range
  entry 08:00 - 09:00 is among the entries taken, with the start 08:00. On Wednesday
  09:15 a section whose only entry starts at 10:00 gives \<open>found = false\<close>.
\<close>

theorem fallback_greatest_start_witness:
  "fallback_pass 570 ex_points = Some \<lparr>title = js ''Negen'', start = 540, endm = None\<rparr> \<and>
   find_now 570 ex_points = Some \<lparr>title = js ''Negen'', start = 540, endm = None\<rparr> \<and>
   (js ''Negen'', 540) \<in> set (parsed_starts ex_points) \<and>
   fallback_pass 470 ex_points = None \<and>
   fallback_pass 570 [] = None \<and>
   (js ''Vroeg'', 480) \<in> set (parsed_starts [ex_vroeg, ex_middag]) \<and>
   \<not> found (fst (computeNowFromScheduleDOM ascii_lower ex_now [ex_later] None))"
proof -
  have early: "\<forall>p\<in>set (parsed_starts ex_points). (470::int) < snd p"
    by (simp add: ex_points_parsed)
  have empty: "\<forall>p\<in>set (parsed_starts []). (570::int) < snd p"
    by (simp add: parsed_starts_def)
  have rng: "re_search range_at (timeText ex_vroeg) = Some (js ''08:00'', js ''09:00'', []) \<and>
      ex_vroeg \<in> set [ex_vroeg, ex_middag]"
    by (simp add: ex_vroeg_range)
  note w = fallback_greatest_start [where nowM = 570 and items = ex_points
      and f = "\<lparr>title = js ''Negen'', start = 540, endm = None\<rparr>"]
  have 1: "(title \<lparr>title = js ''Negen'', start = 540, endm = None\<rparr>,
        start \<lparr>title = js ''Negen'', start = 540, endm = None\<rparr>) \<in> set (parsed_starts ex_points)"
    using w [THEN conjunct1] ex_points_fallback by blast
  have 2: "find_now 570 ex_points = fallback_pass 570 ex_points"
    using w ex_points_no_range by blast
  have 3: "fallback_pass 470 ex_points = None"
    using fallback_greatest_start [where nowM = 470 and items = ex_points,
        THEN conjunct2, THEN conjunct1] early by blast
  have 4: "fallback_pass 570 [] = None"
    using fallback_greatest_start [where nowM = 570 and items = "[]",
        THEN conjunct2, THEN conjunct1] empty by blast
  have 5: "\<exists>s. (title_or ex_vroeg, s) \<in> set (parsed_starts [ex_vroeg, ex_middag])"
    using fallback_greatest_start [where it = ex_vroeg and items = "[ex_vroeg, ex_middag]"
        and ?g1.0 = "js ''08:00''" and ?g2.0 = "js ''09:00''" and rest' = "[]",
        THEN conjunct2, THEN conjunct2, THEN conjunct2, THEN conjunct1] rng
    by (rule mp)
  have 6: "(js ''Vroeg'', 480) \<in> set (parsed_starts [ex_vroeg, ex_middag])"
    using 5 by (simp add: ex_ranges_parsed)
  have its: "items_of ex_later = [\<lparr>timeText = js ''10:00'', titleText = js ''Later''\<rparr>]"
    by (simp add: items_of_def item_of_def ex_later_def trim_def time_at_def re_eval)
  have bm: "build_map ascii_lower [ex_later] (dayKey ex_now) = Some ex_later"
    by (simp add: ex_later_def ex_now_def build_map_def put_node_def node_key_def
        ascii_lower_def dayKey_def daysMap_def js_def)
  have nm: "nowMinutes ex_now = 555"
    by (simp add: nowMinutes_def ex_now_def)
  have rp: "range_pass 555 (items_of ex_later) = None"
    by (simp add: its range_hit_def re_eval)
  have ps: "\<forall>p\<in>set (parsed_starts (items_of ex_later)). (555::int) < snd p"
    by (simp add: its parsed_starts_def start_of_def title_or_def re_eval)
  from bm rp ps
  have later: "build_map ascii_lower [ex_later] (dayKey ex_now) = Some ex_later \<and>
      range_pass (nowMinutes ex_now) (items_of ex_later) = None \<and>
      (\<forall>p\<in>set (parsed_starts (items_of ex_later)). nowMinutes ex_now < snd p)"
    unfolding nm by (intro conjI)
  have 7: "found (fst (computeNowFromScheduleDOM ascii_lower ex_now [ex_later] None)) = False"
    using fallback_greatest_start [where lc = ascii_lower and nodes = "[ex_later]"
        and now = ex_now and node = ex_later and target = None,
        THEN conjunct2, THEN conjunct2, THEN conjunct2, THEN conjunct2, THEN conjunct2,
        THEN conjunct2, THEN conjunct2] later
    by (rule mp)
  from 1 2 3 4 6 7 show ?thesis by (simp add: ex_points_fallback)
qed

text \<open>
  Neither 08:00 - 09:00 nor 14:00 - 15:00 is in the point form, and neither contains
  10:00; still the fallback pass returns the first at 10:00, as a program that started
  at 08:00 and has no end.
\<close>

theorem fallback_ranges_counterexample:
  "\<not> spec_point_form ex_vroeg \<and> \<not> spec_point_form ex_middag \<and>
   range_pass 600 [ex_vroeg, ex_middag] = None \<and>
   find_now 600 [ex_vroeg, ex_middag] = Some \<lparr>title = js ''Vroeg'', start = 480, endm = None\<rparr>"
proof -
  have "\<not> spec_point_form ex_vroeg" "\<not> spec_point_form ex_middag"
    by (simp_all add: spec_point_form_def ex_vroeg_def ex_middag_def re_eval)
  then show ?thesis
    by (simp add: find_now_def ex_ranges_no_range ex_ranges_fallback del: range_pass.simps)
qed
section \<open>The day sections\<close>

text \<open>Nodes with another key leave the entry of a key as it is.\<close>

lemma foldl_put_node_other:
  "\<forall>x\<in>set post. node_key lc x \<noteq> Some k \<Longrightarrow> foldl (put_node lc) m post k = m k"
proof (induction post arbitrary: m)
  case Nil
  then show ?case by simp
next
  case (Cons x post)
  then have "foldl (put_node lc) (put_node lc m x) post k = put_node lc m x k"
    by simp
  moreover from Cons.prems have "put_node lc m x k = m k"
    by (auto simp: put_node_def split: option.splits)
  ultimately show ?case by simp
qed

lemma build_map_last:
  assumes "node_key lc n = Some k" and "k \<noteq> []"
    and "\<forall>x\<in>set post. node_key lc x \<noteq> Some k"
  shows "build_map lc (pre @ n # post) k = Some n"
proof -
  have "build_map lc (pre @ n # post) k =
      foldl (put_node lc) (put_node lc (foldl (put_node lc) Map.empty pre) n) post k"
    by (simp add: build_map_def)
  also have "\<dots> = put_node lc (foldl (put_node lc) Map.empty pre) n k"
    using assms(3) by (rule foldl_put_node_other)
  also have "\<dots> = Some n"
    using assms(1,2) by (simp add: put_node_def)
  finally show ?thesis .
qed

text \<open>Of the map, only the entry of today's key is read.\<close>

lemma computeNow_by_node:
  "build_map lc nodes (dayKey now) = build_map lc nodes' (dayKey now) \<Longrightarrow>
   computeNowFromScheduleDOM lc now nodes target = computeNowFromScheduleDOM lc now nodes' target"
  by (simp add: computeNowFromScheduleDOM_def)

text \<open>
  Claim C10. When several sections have the same key (the lower-cased \<^verbatim>\<open>data-day\<close>, or
  else the lower-cased \<^verbatim>\<open>id\<close>), the map holds the last of them in node order: \<open>n\<close> is
  the last node with key \<open>k\<close>, whatever stands before it. When \<open>k\<close> is today's key, the
  whole result is the one computed from \<open>n\<close> alone, so the entries of earlier sections
  with that key play no part.
\<close>

theorem last_duplicate_wins:
  assumes "node_key lc n = Some k" and "k \<noteq> []"
    and "\<forall>x\<in>set post. node_key lc x \<noteq> Some k"
  shows "build_map lc (pre @ n # post) k = Some n \<and>
         (dayKey now = k \<longrightarrow>
            computeNowFromScheduleDOM lc now (pre @ n # post) target =
            computeNowFromScheduleDOM lc now [n] target)"
proof -
  have a: "build_map lc (pre @ n # post) k = Some n"
    using assms by (rule build_map_last)
  have "build_map lc ([] @ n # []) k = Some n"
    using assms(1,2) by (intro build_map_last) simp_all
  with a have "build_map lc (pre @ n # post) k = build_map lc [n] k" by simp
  then have "dayKey now = k \<longrightarrow>
      computeNowFromScheduleDOM lc now (pre @ n # post) target =
      computeNowFromScheduleDOM lc now [n] target"
    by (auto intro: computeNow_by_node)
  with a show ?thesis by simp
qed

text \<open>The example schedule, evaluated.\<close>

lemmas dom_eval = node_key_def put_node_def build_map_def dayKey_def daysMap_def ascii_lower_def
  nowMinutes_def

lemma ex_woensdag_items: "items_of ex_woensdag = [ex_ochtend, ex_muziek]"
  by (simp add: items_of_def item_of_def ex_woensdag_def ex_ochtend_def ex_muziek_def trim_def
      time_at_def re_eval)

lemma ex_woensdag_key: "node_key ascii_lower ex_woensdag = Some (js ''woensdag'')"
  by (simp add: ex_woensdag_def dom_eval js_def)

lemma ex_dayKey: "dayKey ex_now = js ''woensdag''"
  by (simp add: ex_now_def dom_eval)

lemma ex_find_now:
  "find_now 555 [ex_ochtend, ex_muziek] = Some \<lparr>title = js ''Muziek'', start = 540, endm = Some 630\<rparr>"
  by (simp add: find_now_def range_hit_def title_or_def ex_ochtend_def ex_muziek_def re_eval)

lemma ex_single:
  "fst (computeNowFromScheduleDOM ascii_lower ex_now [ex_woensdag] None) =
     \<lparr>html = build_html \<lparr>title = js ''Muziek'', start = 540, endm = Some 630\<rparr>, found = True\<rparr>"
proof -
  have "build_map ascii_lower [ex_woensdag] (dayKey ex_now) = Some ex_woensdag"
    by (simp add: build_map_def put_node_def ex_woensdag_key ex_dayKey js_def)
  moreover have "nowMinutes ex_now = 555" by (simp add: nowMinutes_def ex_now_def)
  ultimately show ?thesis
    by (simp add: computeNowFromScheduleDOM_def ex_woensdag_items ex_find_now Let_def)
qed

text \<open>
  Two sections for Wednesday, the first by its \<^verbatim>\<open>id\<close> and with another entry for 09:15:
  the map holds the second and the result is the second's.
\<close>

theorem last_duplicate_wins_witness:
  "build_map ascii_lower ([ex_woensdag_old] @ ex_woensdag # [ex_donderdag]) (js ''woensdag'') =
     Some ex_woensdag \<and>
   fst (computeNowFromScheduleDOM ascii_lower ex_now
      ([ex_woensdag_old] @ ex_woensdag # [ex_donderdag]) None) =
     \<lparr>html = build_html \<lparr>title = js ''Muziek'', start = 540, endm = Some 630\<rparr>, found = True\<rparr>"
proof -
  have ne: "js ''woensdag'' \<noteq> []" by (simp add: js_def)
  have post: "\<forall>x\<in>set [ex_donderdag]. node_key ascii_lower x \<noteq> Some (js ''woensdag'')"
    by (simp add: ex_donderdag_def dom_eval js_def)
  from last_duplicate_wins [OF ex_woensdag_key ne post, of "[ex_woensdag_old]" ex_now None]
  show ?thesis by (simp add: ex_dayKey ex_single)
qed
section \<open>The failures\<close>

text \<open>A result that is not found is the fixed one, and the target shows it.\<close>

lemma computeNow_not_found:
  "\<not> found (fst (computeNowFromScheduleDOM lc now nodes target)) \<Longrightarrow>
   computeNowFromScheduleDOM lc now nodes target =
     (\<lparr>html = nothing_html, found = False\<rparr>, renderNowPlayingToTarget nothing_html target)"
proof (cases "build_map lc nodes (dayKey now)")
  case None
  then show ?thesis by (simp add: computeNowFromScheduleDOM_def)
next
  case (Some node)
  assume nf: "\<not> found (fst (computeNowFromScheduleDOM lc now nodes target))"
  show ?thesis
  proof (cases "find_now (nowMinutes now) (items_of node)")
    case None
    with Some show ?thesis by (simp add: computeNowFromScheduleDOM_def)
  next
    case (Some f)
    with \<open>build_map lc nodes (dayKey now) = Some node\<close> nf show ?thesis
      by (simp add: computeNowFromScheduleDOM_def Let_def)
  qed
qed

lemma find_now_Nil: "find_now nowM [] = None"
  by (simp add: find_now_def fallback_pass_def starts_of_def parsed_starts_def)

text \<open>
  Claim C5. The three kinds of failure give the same result, \<open>found = false\<close> with the
  fixed payload \<open>nothing_html\<close>, which is also written to the target: no section for
  today, or a section without entries; no entry matching in either pass; and every
  \<^verbatim>\<open>throw\<close> of the \<^verbatim>\<open>try\<close> block (the fetch rejected, a response that is not ok, a
  body that cannot be read, a document without sections), which the \<^verbatim>\<open>catch\<close> turns
  into that result. No other result has \<open>found = false\<close>. The functions return a
  result on every input: the only errors are those of the \<^verbatim>\<open>try\<close> block.
\<close>

theorem errors_converge:
  "(build_map lc nodes (dayKey now) = None \<longrightarrow>
      computeNowFromScheduleDOM lc now nodes target =
        (\<lparr>html = nothing_html, found = False\<rparr>, renderNowPlayingToTarget nothing_html target)) \<and>
   (build_map lc nodes (dayKey now) = Some node \<and> items_of node = [] \<longrightarrow>
      computeNowFromScheduleDOM lc now nodes target =
        (\<lparr>html = nothing_html, found = False\<rparr>, renderNowPlayingToTarget nothing_html target)) \<and>
   (build_map lc nodes (dayKey now) = Some node \<and>
    range_pass (nowMinutes now) (items_of node) = None \<and>
    fallback_pass (nowMinutes now) (items_of node) = None \<longrightarrow>
      computeNowFromScheduleDOM lc now nodes target =
        (\<lparr>html = nothing_html, found = False\<rparr>, renderNowPlayingToTarget nothing_html target)) \<and>
   (fetch_and_compute lc now resp target = Inl err \<longrightarrow>
      loadCurrentProgramFromPrograma lc now [] resp target =
        (\<lparr>html = nothing_html, found = False\<rparr>, renderNowPlayingToTarget nothing_html target)) \<and>
   (resp = Rejected \<or> resp = Response False status body \<or> resp = Response True status None \<or>
    resp = Response True status (Some []) \<longrightarrow>
      loadCurrentProgramFromPrograma lc now [] resp target =
        (\<lparr>html = nothing_html, found = False\<rparr>, renderNowPlayingToTarget nothing_html target)) \<and>
   (\<not> found (fst (loadCurrentProgramFromPrograma lc now localNodes resp target)) \<longrightarrow>
      loadCurrentProgramFromPrograma lc now localNodes resp target =
        (\<lparr>html = nothing_html, found = False\<rparr>, renderNowPlayingToTarget nothing_html target))"
proof (intro conjI impI)
  assume "build_map lc nodes (dayKey now) = None"
  then show "computeNowFromScheduleDOM lc now nodes target =
      (\<lparr>html = nothing_html, found = False\<rparr>, renderNowPlayingToTarget nothing_html target)"
    by (simp add: computeNowFromScheduleDOM_def)
next
  assume "build_map lc nodes (dayKey now) = Some node \<and> items_of node = []"
  then show "computeNowFromScheduleDOM lc now nodes target =
      (\<lparr>html = nothing_html, found = False\<rparr>, renderNowPlayingToTarget nothing_html target)"
    by (simp add: computeNowFromScheduleDOM_def find_now_Nil)
next
  assume "build_map lc nodes (dayKey now) = Some node \<and>
    range_pass (nowMinutes now) (items_of node) = None \<and>
    fallback_pass (nowMinutes now) (items_of node) = None"
  then show "computeNowFromScheduleDOM lc now nodes target =
      (\<lparr>html = nothing_html, found = False\<rparr>, renderNowPlayingToTarget nothing_html target)"
    by (simp add: computeNowFromScheduleDOM_def find_now_def)
next
  assume "fetch_and_compute lc now resp target = Inl err"
  then show "loadCurrentProgramFromPrograma lc now [] resp target =
      (\<lparr>html = nothing_html, found = False\<rparr>, renderNowPlayingToTarget nothing_html target)"
    by (simp add: loadCurrentProgramFromPrograma_def)
next
  assume "resp = Rejected \<or> resp = Response False status body \<or> resp = Response True status None \<or>
    resp = Response True status (Some [])"
  then show "loadCurrentProgramFromPrograma lc now [] resp target =
      (\<lparr>html = nothing_html, found = False\<rparr>, renderNowPlayingToTarget nothing_html target)"
    by (auto simp: loadCurrentProgramFromPrograma_def fetch_and_compute_def)
next
  assume nf: "\<not> found (fst (loadCurrentProgramFromPrograma lc now localNodes resp target))"
  show "loadCurrentProgramFromPrograma lc now localNodes resp target =
      (\<lparr>html = nothing_html, found = False\<rparr>, renderNowPlayingToTarget nothing_html target)"
  proof (cases "localNodes \<noteq> []")
    case True
    with nf show ?thesis
      by (simp add: loadCurrentProgramFromPrograma_def computeNow_not_found)
  next
    case False
    show ?thesis
    proof (cases "fetch_and_compute lc now resp target")
      case (Inl e)
      with False show ?thesis by (simp add: loadCurrentProgramFromPrograma_def)
    next
      case (Inr r)
      then obtain status remoteNodes where
        "r = computeNowFromScheduleDOM lc now remoteNodes target"
        by (auto simp: fetch_and_compute_def split: fetched.splits if_splits option.splits)
      with nf False Inr show ?thesis
        by (simp add: loadCurrentProgramFromPrograma_def computeNow_not_found)
    qed
  qed
qed

lemma ex_leeg_map: "build_map ascii_lower [ex_leeg] (dayKey ex_now) = Some ex_leeg"
  by (simp add: ex_leeg_def ex_dayKey build_map_def put_node_def node_key_def ascii_lower_def js_def)

lemma ex_later_map: "build_map ascii_lower [ex_later] (dayKey ex_now) = Some ex_later"
  by (simp add: ex_later_def ex_dayKey build_map_def put_node_def node_key_def ascii_lower_def js_def)

lemma ex_later_items:
  "items_of ex_later = [\<lparr>timeText = js ''10:00'', titleText = js ''Later''\<rparr>]"
  by (simp add: items_of_def item_of_def ex_later_def trim_def time_at_def re_eval)

lemma ex_later_none:
  "range_pass (nowMinutes ex_now) (items_of ex_later) = None \<and>
   fallback_pass (nowMinutes ex_now) (items_of ex_later) = None"
  by (simp add: ex_later_items nowMinutes_def ex_now_def range_hit_def fallback_pass_def
      starts_of_def parsed_starts_def start_of_def title_or_def re_eval)

text \<open>
  Wednesday 09:15 with only a Thursday section, with an empty Wednesday section, with
  a Wednesday section whose only entry starts at 10:00, and with a fetch answered 404
  or by a document without sections.
\<close>

theorem errors_converge_witness:
  "computeNowFromScheduleDOM ascii_lower ex_now [ex_donderdag] (Some []) =
     (\<lparr>html = nothing_html, found = False\<rparr>, Some nothing_html) \<and>
   computeNowFromScheduleDOM ascii_lower ex_now [ex_leeg] (Some []) =
     (\<lparr>html = nothing_html, found = False\<rparr>, Some nothing_html) \<and>
   computeNowFromScheduleDOM ascii_lower ex_now [ex_later] (Some []) =
     (\<lparr>html = nothing_html, found = False\<rparr>, Some nothing_html) \<and>
   loadCurrentProgramFromPrograma ascii_lower ex_now [] (Response False 404 None) (Some []) =
     (\<lparr>html = nothing_html, found = False\<rparr>, Some nothing_html) \<and>
   loadCurrentProgramFromPrograma ascii_lower ex_now [] (Response True 200 (Some [])) None =
     (\<lparr>html = nothing_html, found = False\<rparr>, None) \<and>
   loadCurrentProgramFromPrograma ascii_lower ex_now [ex_later] Rejected (Some []) =
     (\<lparr>html = nothing_html, found = False\<rparr>, Some nothing_html)"
proof -
  have absent: "build_map ascii_lower [ex_donderdag] (dayKey ex_now) = None"
    by (simp add: ex_donderdag_def ex_dayKey build_map_def put_node_def node_key_def
        ascii_lower_def js_def)
  have empty: "items_of ex_leeg = []"
    by (simp add: items_of_def ex_leeg_def)
  have thrown: "fetch_and_compute ascii_lower ex_now (Response False 404 None) (Some []) =
      Inl (FetchFailed 404)"
    by (simp add: fetch_and_compute_def)
  have a: "computeNowFromScheduleDOM ascii_lower ex_now [ex_donderdag] (Some []) =
      (\<lparr>html = nothing_html, found = False\<rparr>, renderNowPlayingToTarget nothing_html (Some []))"
    using errors_converge [of ascii_lower "[ex_donderdag]" ex_now "Some []"] absent by blast
  have b: "computeNowFromScheduleDOM ascii_lower ex_now [ex_leeg] (Some []) =
      (\<lparr>html = nothing_html, found = False\<rparr>, renderNowPlayingToTarget nothing_html (Some []))"
    using errors_converge [of ascii_lower "[ex_leeg]" ex_now "Some []" ex_leeg] ex_leeg_map empty
    by blast
  have c: "computeNowFromScheduleDOM ascii_lower ex_now [ex_later] (Some []) =
      (\<lparr>html = nothing_html, found = False\<rparr>, renderNowPlayingToTarget nothing_html (Some []))"
    using errors_converge [of ascii_lower "[ex_later]" ex_now "Some []" ex_later] ex_later_map
      ex_later_none
    by blast
  have d: "loadCurrentProgramFromPrograma ascii_lower ex_now [] (Response False 404 None) (Some []) =
      (\<lparr>html = nothing_html, found = False\<rparr>, renderNowPlayingToTarget nothing_html (Some []))"
    using errors_converge [of ascii_lower _ ex_now "Some []" _ "Response False 404 None"
        "FetchFailed 404"] thrown
    by blast
  have e: "loadCurrentProgramFromPrograma ascii_lower ex_now [] (Response True 200 (Some [])) None =
      (\<lparr>html = nothing_html, found = False\<rparr>, renderNowPlayingToTarget nothing_html None)"
    using errors_converge [of ascii_lower _ ex_now None _ "Response True 200 (Some [])" _ 200]
    by blast
  have "\<not> found (fst (loadCurrentProgramFromPrograma ascii_lower ex_now [ex_later] Rejected (Some [])))"
    by (simp add: loadCurrentProgramFromPrograma_def c)
  then have f: "loadCurrentProgramFromPrograma ascii_lower ex_now [ex_later] Rejected (Some []) =
      (\<lparr>html = nothing_html, found = False\<rparr>, renderNowPlayingToTarget nothing_html (Some []))"
    using errors_converge [of ascii_lower _ ex_now "Some []" _ Rejected _ _ _ "[ex_later]"]
    by blast
  from a b c d e f show ?thesis by (simp add: renderNowPlayingToTarget_def)
qed
section \<open>The render payload\<close>

text \<open>A found program has a title: the placeholder stands in for an empty one.\<close>

lemma title_or_nonempty: "title_or it \<noteq> []"
  by (simp add: title_or_def js_def)

lemma range_hit_title: "range_hit nowM it = Some f \<Longrightarrow> title f = title_or it"
  by (auto simp: range_hit_def split: option.splits if_splits)

lemma range_pass_Some:
  "range_pass nowM items = Some f \<Longrightarrow> \<exists>it\<in>set items. range_hit nowM it = Some f"
  by (induction items) (auto split: option.splits)

lemma start_of_title: "start_of it = (t, s) \<Longrightarrow> t = title_or it"
  by (simp add: start_of_def)

lemma find_now_title: "find_now nowM items = Some f \<Longrightarrow> title f \<noteq> []"
proof (cases "range_pass nowM items")
  case None
  assume "find_now nowM items = Some f"
  with None have "fallback_pass nowM items = Some f" by (simp add: find_now_def)
  then have "(title f, start f) \<in> set (parsed_starts items)"
    using fallback_pass_Some by blast
  then obtain it where "start_of it = (title f, Some (start f))"
    using parsed_starts_iff by blast
  then have "title f = title_or it" by (rule start_of_title)
  then show ?thesis by (simp add: title_or_nonempty)
next
  case (Some g)
  assume "find_now nowM items = Some f"
  with Some have "range_pass nowM items = Some f" by (simp add: find_now_def)
  then obtain it where "range_hit nowM it = Some f"
    using range_pass_Some by blast
  then have "title f = title_or it" by (rule range_hit_title)
  then show ?thesis by (simp add: title_or_nonempty)
qed

text \<open>\<open>escapeHtml\<close> works character by character.\<close>

lemma escapeHtml_append: "escapeHtml (a @ b) = escapeHtml a @ escapeHtml b"
  by (simp add: escapeHtml_def)

lemma escape_char_plain:
  "60 \<notin> set (escape_char c) \<and> 62 \<notin> set (escape_char c) \<and> 34 \<notin> set (escape_char c) \<and>
   39 \<notin> set (escape_char c)"
  by (simp add: escape_char_def js_def)

lemma escapeHtml_plain:
  "60 \<notin> set (escapeHtml s) \<and> 62 \<notin> set (escapeHtml s) \<and> 34 \<notin> set (escapeHtml s) \<and>
   39 \<notin> set (escapeHtml s)"
  using escape_char_plain by (auto simp: escapeHtml_def)

text \<open>The result for a found program.\<close>

lemma computeNow_found_html:
  assumes "build_map lc nodes (dayKey now) = Some node"
    and "find_now (nowMinutes now) (items_of node) = Some f"
  shows "computeNowFromScheduleDOM lc now nodes target =
     (\<lparr>html = html_head @ escapeHtml (title f) @ html_mid @ timeStr f @ html_tail, found = True\<rparr>,
      renderNowPlayingToTarget
        (html_head @ escapeHtml (title f) @ html_mid @ timeStr f @ html_tail) target)"
proof -
  from assms(2) have "title f \<noteq> []" by (rule find_now_title)
  then have "build_html f = html_head @ escapeHtml (title f) @ html_mid @ timeStr f @ html_tail"
    by (simp add: build_html_def)
  with assms show ?thesis
    by (simp add: computeNowFromScheduleDOM_def Let_def)
qed

text \<open>
  Claim C9. The payload of a found program is the template with the escaped title after
  "Nu: ". \<open>escapeHtml\<close> replaces the ampersand, less-than, greater-than, double quote
  and single quote by the entities \<^verbatim>\<open>&amp; &lt; &gt; &quot; &#39;\<close>, character by
  character, and leaves every other character; so its output holds none of the four
  characters less-than, greater-than, double quote and single quote. The title
  \<^verbatim>\<open><script>\<close> becomes \<^verbatim>\<open>&lt;script&gt;\<close>.
\<close>

theorem title_is_escaped:
  "(build_map lc nodes (dayKey now) = Some node \<and>
    find_now (nowMinutes now) (items_of node) = Some f \<longrightarrow>
      html (fst (computeNowFromScheduleDOM lc now nodes target)) =
        html_head @ escapeHtml (title f) @ html_mid @ timeStr f @ html_tail) \<and>
   escapeHtml [] = [] \<and>
   escapeHtml (a @ b) = escapeHtml a @ escapeHtml b \<and>
   escapeHtml [38] = js ''&amp;'' \<and> escapeHtml [60] = js ''&lt;'' \<and>
   escapeHtml [62] = js ''&gt;'' \<and> escapeHtml [34] = js ''&quot;'' \<and>
   escapeHtml [39] = js ''&#39;'' \<and>
   (c \<noteq> 38 \<and> c \<noteq> 60 \<and> c \<noteq> 62 \<and> c \<noteq> 34 \<and> c \<noteq> 39 \<longrightarrow> escapeHtml [c] = [c]) \<and>
   60 \<notin> set (escapeHtml s) \<and> 62 \<notin> set (escapeHtml s) \<and> 34 \<notin> set (escapeHtml s) \<and>
   39 \<notin> set (escapeHtml s) \<and>
   escapeHtml (js ''<script>'') = js ''&lt;script&gt;''"
proof -
  have payload: "build_map lc nodes (dayKey now) = Some node \<and>
    find_now (nowMinutes now) (items_of node) = Some f \<longrightarrow>
      html (fst (computeNowFromScheduleDOM lc now nodes target)) =
        html_head @ escapeHtml (title f) @ html_mid @ timeStr f @ html_tail"
    by (simp add: computeNow_found_html)
  have chars: "escapeHtml [] = [] \<and>
    escapeHtml [38] = js ''&amp;'' \<and> escapeHtml [60] = js ''&lt;'' \<and>
    escapeHtml [62] = js ''&gt;'' \<and> escapeHtml [34] = js ''&quot;'' \<and>
    escapeHtml [39] = js ''&#39;'' \<and>
    (c \<noteq> 38 \<and> c \<noteq> 60 \<and> c \<noteq> 62 \<and> c \<noteq> 34 \<and> c \<noteq> 39 \<longrightarrow> escapeHtml [c] = [c])"
    by (simp add: escapeHtml_def escape_char_def)
  have script: "escapeHtml (js ''<script>'') = js ''&lt;script&gt;''"
    by (simp add: escapeHtml_def escape_char_def js_def)
  from payload chars script escapeHtml_plain [of s] escapeHtml_append [of a b]
  show ?thesis by blast
qed

lemma ex_script_map: "build_map ascii_lower [ex_script] (dayKey ex_now) = Some ex_script"
  by (simp add: ex_script_def ex_dayKey build_map_def put_node_def node_key_def ascii_lower_def js_def)

lemma ex_script_items:
  "items_of ex_script = [\<lparr>timeText = js ''09:00 - 10:30'', titleText = js ''<script>''\<rparr>]"
  by (simp add: items_of_def item_of_def ex_script_def trim_def js_def is_space_def)

lemma ex_script_found:
  "find_now (nowMinutes ex_now) (items_of ex_script) =
     Some \<lparr>title = js ''<script>'', start = 540, endm = Some 630\<rparr>"
  by (simp add: ex_script_items nowMinutes_def ex_now_def find_now_def range_hit_def title_or_def
      re_eval)

text \<open>Unfolding \<open>fmt\<close> on a concrete number.\<close>

lemmas fmt_eval = smod_int_alt_def String_int_def padStart2_def dec.simps round_double_def
  ulp.simps Let_def

lemma ex_timeStr:
  "timeStr \<lparr>title = t, start = 540, endm = Some 630\<rparr> = js ''09:00'' @ [32, 8211, 32] @ js ''10:30''"
  by (simp add: timeStr_def fmt_eval js_def)

text \<open>
  A Wednesday entry 09:00 - 10:30 titled \<^verbatim>\<open><script>\<close>, at 09:15: the payload holds
  the escaped title and the time label.
\<close>

theorem title_is_escaped_witness:
  "html (fst (computeNowFromScheduleDOM ascii_lower ex_now [ex_script] None)) =
     html_head @ js ''&lt;script&gt;'' @ html_mid @ js ''09:00'' @ [32, 8211, 32] @ js ''10:30'' @
     html_tail \<and>
   escapeHtml [9654] = [9654]"
proof -
  have plain: "(9654::nat) \<noteq> 38 \<and> (9654::nat) \<noteq> 60 \<and> (9654::nat) \<noteq> 62 \<and> (9654::nat) \<noteq> 34 \<and> (9654::nat) \<noteq> 39"
    by simp
  have hyp: "build_map ascii_lower [ex_script] (dayKey ex_now) = Some ex_script \<and>
      find_now (nowMinutes ex_now) (items_of ex_script) =
        Some \<lparr>title = js ''<script>'', start = 540, endm = Some 630\<rparr>"
    using ex_script_map ex_script_found by simp
  note t = title_is_escaped [of ascii_lower "[ex_script]" ex_now ex_script
      "\<lparr>title = js ''<script>'', start = 540, endm = Some 630\<rparr>" None _ _ 9654]
  from t hyp have
    "html (fst (computeNowFromScheduleDOM ascii_lower ex_now [ex_script] None)) =
       html_head @ escapeHtml (title \<lparr>title = js ''<script>'', start = 540, endm = Some 630\<rparr>) @
       html_mid @ timeStr \<lparr>title = js ''<script>'', start = 540, endm = Some 630\<rparr> @ html_tail"
    by blast
  moreover from t have "escapeHtml (js ''<script>'') = js ''&lt;script&gt;''" by blast
  moreover from t plain have "escapeHtml [9654] = [9654]" by blast
  ultimately show ?thesis by (simp add: ex_timeStr)
qed

lemma ex_middernacht_found:
  "find_now 30 [ex_middernacht] = Some \<lparr>title = js ''Nacht'', start = 0, endm = Some 60\<rparr>"
  by (simp add: ex_middernacht_def find_now_def range_hit_def title_or_def re_eval)

lemma ex_avond_found:
  "find_now 1380 [ex_avond] = Some \<lparr>title = js ''Avond'', start = 1320, endm = Some 0\<rparr>"
  by (simp add: ex_avond_def find_now_def range_hit_def title_or_def re_eval)

lemma ex_nul_found:
  "find_now 30 [ex_nul] = Some \<lparr>title = js ''Nul'', start = 0, endm = None\<rparr>"
  by (simp add: ex_nul_def find_now_def range_hit_def title_or_def fallback_pass_def starts_of_def
      parsed_starts_def start_of_def re_eval)

text \<open>
  Claim C6, where the code departs from it. The time label is built under the tests
  \<^verbatim>\<open>found.start && found.end\<close> and \<^verbatim>\<open>found.start\<close>, and the number 0 is falsy. So
  the entry 00:00 - 01:00, found at 00:30 with start 0, gets no time label at all (the
  payload is the template with the title and an empty label); the entry 22:00 - 00:00,
  found at 23:00 with end 0, gets the label of a program without end, "22:00" and the
  arrow; and the point entry 00:00 gets no label. \<open>fmt\<close> itself formats 0 as 00:00.
\<close>

theorem midnight_loses_time_label:
  "find_now 30 [ex_middernacht] = Some \<lparr>title = js ''Nacht'', start = 0, endm = Some 60\<rparr> \<and>
   timeStr \<lparr>title = js ''Nacht'', start = 0, endm = Some 60\<rparr> = [] \<and>
   build_html \<lparr>title = js ''Nacht'', start = 0, endm = Some 60\<rparr> =
     html_head @ js ''Nacht'' @ html_mid @ html_tail \<and>
   find_now 1380 [ex_avond] = Some \<lparr>title = js ''Avond'', start = 1320, endm = Some 0\<rparr> \<and>
   timeStr \<lparr>title = js ''Avond'', start = 1320, endm = Some 0\<rparr> = js ''22:00'' @ [32, 8594] \<and>
   find_now 30 [ex_nul] = Some \<lparr>title = js ''Nul'', start = 0, endm = None\<rparr> \<and>
   timeStr \<lparr>title = js ''Nul'', start = 0, endm = None\<rparr> = [] \<and>
   fmt (Some 0) = js ''00:00''"
proof -
  have "timeStr \<lparr>title = js ''Nacht'', start = 0, endm = Some 60\<rparr> = []"
    by (simp add: timeStr_def)
  moreover have "build_html \<lparr>title = js ''Nacht'', start = 0, endm = Some 60\<rparr> =
     html_head @ js ''Nacht'' @ html_mid @ html_tail"
    by (simp add: build_html_def timeStr_def escapeHtml_def escape_char_def js_def)
  moreover have "timeStr \<lparr>title = js ''Avond'', start = 1320, endm = Some 0\<rparr> = js ''22:00'' @ [32, 8594]"
    by (simp add: timeStr_def fmt_eval js_def)
  moreover have "timeStr \<lparr>title = js ''Nul'', start = 0, endm = None\<rparr> = []"
    by (simp add: timeStr_def)
  moreover have "fmt (Some 0) = js ''00:00''"
    by (simp add: fmt_eval js_def)
  ultimately show ?thesis
    using ex_middernacht_found ex_avond_found ex_nul_found by simp
qed
section \<open>The helper \<^verbatim>\<open>fmt\<close>\<close>

text \<open>On a dividend that is not negative, the remainder of JavaScript is \<open>mod\<close>.\<close>

lemma smod_nonneg: "0 \<le> a \<Longrightarrow> 0 < b \<Longrightarrow> (a::int) smod b = a mod b"
  by (cases "a = 0") (simp_all add: smod_int_alt_def)

text \<open>Up to 99, \<^verbatim>\<open>String(n).padStart(2,'0')\<close> is the two-digit decimal.\<close>

lemma two_digits:
  assumes "0 \<le> n" and "n < 100"
  shows "padStart2 (String_int n) = spec_two_digits n"
proof (cases "n < 10")
  case True
  with assms have "dec (nat n) = [48 + nat n]" by (simp add: dec.simps)
  moreover from True assms have "n div 10 = 0" "n mod 10 = n" by simp_all
  ultimately show ?thesis
    using assms by (simp add: String_int_def padStart2_def spec_two_digits_def)
next
  case False
  with assms have "nat n div 10 < 10" by linarith
  then have "dec (nat n div 10) = [48 + nat n div 10]" by (simp add: dec.simps)
  with False assms have "dec (nat n) = [48 + nat n div 10, 48 + nat n mod 10]"
    by (subst dec.simps) simp
  moreover from assms have "nat (n div 10) = nat n div 10" "nat (n mod 10) = nat n mod 10"
    by (simp_all add: nat_div_distrib nat_mod_distrib)
  ultimately show ?thesis
    using assms by (simp add: String_int_def padStart2_def spec_two_digits_def)
qed

text \<open>An integer up to \<open>2^53\<close> in absolute value is not rounded.\<close>

lemma ulp_small: "n < 9007199254740992 \<Longrightarrow> ulp n = 1"
  by (subst ulp.simps) simp

lemma ulp_top: "ulp 9007199254740992 = 2"
  by (subst ulp.simps) (simp add: ulp_small)

lemma round_double_exact:
  assumes "\<bar>x\<bar> \<le> 9007199254740992"
  shows "round_double x = x"
proof (cases "\<bar>x\<bar> < 9007199254740992")
  case True
  then have "nat \<bar>x\<bar> < 9007199254740992" by simp
  then have "ulp (nat \<bar>x\<bar>) = 1" by (rule ulp_small)
  then show ?thesis
    by (simp add: round_double_def Let_def mult_sgn_abs)
next
  case False
  with assms have "x = 9007199254740992 \<or> x = - 9007199254740992" by linarith
  then show ?thesis
  proof
    assume "x = 9007199254740992"
    then show ?thesis by (simp add: round_double_def Let_def ulp_top)
  next
    assume "x = - 9007199254740992"
    then show ?thesis by (simp add: round_double_def Let_def ulp_top)
  qed
qed

lemma fmt_normal:
  assumes "- 1440 \<le> m" and "m \<le> 9007199254739552"
  shows "fmt (Some m) =
     spec_two_digits ((m mod 1440) div 60) @ 58 # spec_two_digits ((m mod 1440) mod 60)"
proof -
  define r where "r = m mod 1440"
  have r: "0 \<le> r" "r < 1440" by (simp_all add: r_def)
  from assms have "\<bar>m + 1440\<bar> \<le> 9007199254740992" by simp
  then have rd: "round_double (m + 1440) = m + 1440" by (rule round_double_exact)
  from assms have "(m + 1440) smod 1440 = (m + 1440) mod 1440"
    by (simp add: smod_nonneg)
  then have mins: "(m + 1440) smod 1440 = r" by (simp add: r_def)
  from r have h: "0 \<le> r div 60" "r div 60 < 100" by simp_all
  from r have "r smod 60 = r mod 60" by (simp add: smod_nonneg)
  moreover have "0 \<le> r mod 60" "r mod 60 < 100" by simp_all
  ultimately have "fmt (Some m) = spec_two_digits (r div 60) @ 58 # spec_two_digits (r mod 60)"
    using h by (simp add: rd mins two_digits Let_def)
  then show ?thesis by (simp add: r_def)
qed

text \<open>
  Claim C7, as the code has it. For \<open>m\<close> from \<open>-1440\<close> to \<open>2^53 - 1440\<close>, the range in
  which the sum \<^verbatim>\<open>mins + 24*60\<close> is neither negative nor rounded, \<open>fmt\<close> formats
  \<open>m mod 1440\<close>: the hours and the minutes of that number, each zero-padded to two
  digits, with a colon between; so \<open>fmt m = fmt (m mod 1440)\<close>. The three values of the
  spec hold.
\<close>

theorem fmt_normalizes:
  "(- 1440 \<le> m \<and> m \<le> 9007199254739552 \<longrightarrow>
      fmt (Some m) = fmt (Some (m mod 1440)) \<and>
      fmt (Some m) =
        spec_two_digits ((m mod 1440) div 60) @ 58 # spec_two_digits ((m mod 1440) mod 60)) \<and>
   fmt (Some (- 30)) = js ''23:30'' \<and> fmt (Some 1440) = js ''00:00'' \<and>
   fmt (Some 75) = js ''01:15''"
proof -
  have "fmt (Some m) = fmt (Some (m mod 1440))"
    if lo: "- 1440 \<le> m" and hi: "m \<le> 9007199254739552"
  proof -
    have lo': "- 1440 \<le> m mod 1440"
      by (rule order_trans [of _ 0]) simp_all
    have "m mod 1440 < 1440" by simp
    then have hi': "m mod 1440 \<le> 9007199254739552" by linarith
    show ?thesis
      using fmt_normal [OF lo' hi'] fmt_normal [OF lo hi] by simp
  qed
  moreover have "fmt (Some (- 30)) = js ''23:30''" "fmt (Some 1440) = js ''00:00''"
    "fmt (Some 75) = js ''01:15''"
    by (simp_all add: fmt_eval js_def)
  ultimately show ?thesis
    using fmt_normal [of m] by simp
qed

text \<open>
  At \<open>-90\<close> the output is that of 1350, 22:30; at the upper end \<open>2^53 - 1440\<close> it is that
  of 32, 00:32.
\<close>

theorem fmt_normalizes_witness:
  "fmt (Some (- 90)) = fmt (Some 1350) \<and> fmt (Some (- 90)) = js ''22:30'' \<and>
   fmt (Some 9007199254739552) = js ''00:32''"
proof -
  have rng: "- 1440 \<le> (- 90 :: int) \<and> (- 90 :: int) \<le> 9007199254739552" by simp
  from fmt_normalizes [of "- 90"] rng
  have a: "fmt (Some (- 90)) = fmt (Some (- 90 mod 1440)) \<and>
      fmt (Some (- 90)) =
        spec_two_digits ((- 90 mod 1440) div 60) @ 58 # spec_two_digits ((- 90 mod 1440) mod 60)"
    by blast
  have top: "- 1440 \<le> (9007199254739552 :: int) \<and> (9007199254739552 :: int) \<le> 9007199254739552"
    by simp
  from fmt_normalizes [of 9007199254739552] top
  have b: "fmt (Some 9007199254739552) =
      spec_two_digits ((9007199254739552 mod 1440) div 60) @
      58 # spec_two_digits ((9007199254739552 mod 1440) mod 60)"
    by blast
  from a [THEN conjunct1] have a1: "fmt (Some (- 90)) = fmt (Some 1350)"
    by (simp del: fmt.simps)
  from a [THEN conjunct2] have a2: "fmt (Some (- 90)) = js ''22:30''"
    by (simp add: spec_two_digits_def js_def del: fmt.simps)
  from b have b1: "fmt (Some 9007199254739552) = js ''00:32''"
    by (simp add: spec_two_digits_def js_def del: fmt.simps)
  from a1 a2 b1 show ?thesis by (intro conjI)
qed

text \<open>
  Below \<open>-1440\<close> the sum \<^verbatim>\<open>mins + 24*60\<close> is still negative and so is the remainder:
  \<open>fmt (-1500)\<close> is "-1:00", while \<open>-1500 mod 1440\<close> is 1380, formatted 23:00. Above
  \<open>2^53 - 1440\<close> the sum is rounded: for \<open>2^53 - 1\<close> it is \<open>2^53 + 1440\<close> and the output
  is 00:32, while \<open>(2^53 - 1) mod 1440\<close> is 31, formatted 00:31.
\<close>

theorem fmt_below_counterexample:
  "fmt (Some (- 1500)) = js ''-1:00'' \<and> fmt (Some (- 1500 mod 1440)) = js ''23:00'' \<and>
   fmt (Some (- 1500)) \<noteq> fmt (Some (- 1500 mod 1440)) \<and>
   fmt (Some 9007199254740991) = js ''00:32'' \<and>
   fmt (Some (9007199254740991 mod 1440)) = js ''00:31''"
  by (simp add: fmt_eval js_def)
section \<open>The range of the minutes\<close>

text \<open>One or two digits denote a number from 0 to 99.\<close>

lemma parseInt_bounds:
  assumes "ds \<noteq> []" and "length ds \<le> 2" and "\<forall>c\<in>set ds. is_digit c"
  shows "0 \<le> parseInt ds \<and> parseInt ds \<le> 99"
proof -
  from assms(1,2) consider a where "ds = [a]" | a b where "ds = [a, b]"
    by (cases ds rule: list.exhaust; cases "tl ds"; cases "tl (tl ds)") auto
  then show ?thesis
  proof cases
    case 1
    with assms(3) show ?thesis by (simp add: parseInt_def is_digit_def)
  next
    case 2
    with assms(3) show ?thesis by (simp add: parseInt_def is_digit_def)
  qed
qed

lemma toMinutes_Some:
  "toMinutes hm = Some v \<Longrightarrow>
   \<exists>h m rest. re_search hm_at hm = Some (h, m, rest) \<and> v = parseInt h * 60 + parseInt m"
  unfolding toMinutes_def by (cases "re_search hm_at hm") (auto split: if_splits)

lemma toMinutes_bounds:
  assumes "toMinutes hm = Some v"
  shows "0 \<le> v \<and> v < 6040"
proof -
  from assms obtain h m rest where s: "re_search hm_at hm = Some (h, m, rest)"
    and v: "v = parseInt h * 60 + parseInt m"
    using toMinutes_Some by blast
  from s have "\<exists>s'. hm_at s' = Some (h, m, rest)"
    by (rule re_search_Some)
  then obtain s' where "hm_at s' = Some (h, m, rest)" ..
  then have g: "h \<noteq> [] \<and> length h \<le> 2 \<and> (\<forall>c\<in>set h. is_digit c) \<and>
      length m = 2 \<and> (\<forall>c\<in>set m. is_digit c)"
    by (rule hm_at_Some)
  from g have "m \<noteq> []" "length m \<le> 2" by auto
  with g have pm: "0 \<le> parseInt m \<and> parseInt m \<le> 99"
    by (intro parseInt_bounds) simp_all
  from g have ph: "0 \<le> parseInt h \<and> parseInt h \<le> 99"
    by (intro parseInt_bounds) simp_all
  from ph pm show ?thesis unfolding v by linarith
qed

lemma toMinutes_in_day:
  assumes "re_search hm_at hm = Some (h, m, rest)" and "parseInt h \<le> 23" and "parseInt m \<le> 59"
  shows "toMinutes hm = Some (parseInt h * 60 + parseInt m) \<and>
         0 \<le> parseInt h * 60 + parseInt m \<and> parseInt h * 60 + parseInt m < 1440"
proof -
  from assms(1) have "hm \<noteq> []" by (auto simp: hm_at_def)
  with assms(1) have t: "toMinutes hm = Some (parseInt h * 60 + parseInt m)"
    by (simp add: toMinutes_def)
  then have "0 \<le> parseInt h * 60 + parseInt m" using toMinutes_bounds by blast
  with t assms(2,3) show ?thesis by simp
qed

text \<open>The start and the end of a found program are values of \<open>toMinutes\<close>.\<close>

lemma range_hit_minutes:
  "range_hit nowM it = Some f \<Longrightarrow>
   \<exists>g1 g2 e. toMinutes g1 = Some (start f) \<and> endm f = Some e \<and> toMinutes g2 = Some e"
proof -
  assume "range_hit nowM it = Some f"
  then obtain g1 g2 s e where "toMinutes g1 = Some s" "toMinutes g2 = Some e"
    "f = \<lparr>title = title_or it, start = s, endm = Some e\<rparr>"
    by (auto simp: range_hit_def split: option.splits if_splits)
  then have "toMinutes g1 = Some (start f) \<and> endm f = Some e \<and> toMinutes g2 = Some e"
    by simp
  then show ?thesis by blast
qed

lemma start_of_minutes: "start_of it = (t, Some s) \<Longrightarrow> \<exists>g. toMinutes g = Some s"
  by (auto simp: start_of_def split: option.splits)

lemma find_now_minutes:
  assumes "find_now nowM items = Some f"
  shows "(\<exists>g. toMinutes g = Some (start f)) \<and> (\<forall>e. endm f = Some e \<longrightarrow> (\<exists>g. toMinutes g = Some e))"
proof (cases "range_pass nowM items")
  case None
  with assms have fb: "fallback_pass nowM items = Some f" by (simp add: find_now_def)
  then have mem: "(title f, start f) \<in> set (parsed_starts items)" and e: "endm f = None"
    using fallback_pass_Some by blast+
  from mem obtain it where "start_of it = (title f, Some (start f))"
    using parsed_starts_iff by blast
  then have "\<exists>g. toMinutes g = Some (start f)" by (rule start_of_minutes)
  with e show ?thesis by simp
next
  case (Some g)
  with assms have "range_pass nowM items = Some f" by (simp add: find_now_def)
  then obtain it where "range_hit nowM it = Some f"
    using range_pass_Some by blast
  then obtain g1 g2 e where "toMinutes g1 = Some (start f)" "endm f = Some e" "toMinutes g2 = Some e"
    using range_hit_minutes by blast
  then show ?thesis by auto
qed

text \<open>
  Claim C8, as the code has it. \<open>toMinutes\<close> neither checks nor reduces the matched
  digits: its value is 60 times the hour field plus the minute field, each at most 99,
  so it lies in \<open>[0, 6040)\<close>, and in \<open>[0, 1440)\<close> when the hour is at most 23 and the
  minute at most 59. The start and the end of a found program are values of
  \<open>toMinutes\<close>, so they lie in \<open>[0, 6040)\<close>. \<open>nowMinutes\<close> lies in \<open>[0, 1440)\<close> for the
  hours and minutes of a date.
\<close>

theorem minutes_ranges:
  "(toMinutes hm = Some v \<longrightarrow> 0 \<le> v \<and> v < 6040) \<and>
   (re_search hm_at hm = Some (h, m, rest) \<and> parseInt h \<le> 23 \<and> parseInt m \<le> 59 \<longrightarrow>
      toMinutes hm = Some (parseInt h * 60 + parseInt m) \<and>
      0 \<le> parseInt h * 60 + parseInt m \<and> parseInt h * 60 + parseInt m < 1440) \<and>
   (find_now nowM items = Some f \<longrightarrow>
      (\<exists>g. toMinutes g = Some (start f)) \<and> 0 \<le> start f \<and> start f < 6040 \<and>
      (\<forall>e. endm f = Some e \<longrightarrow> (\<exists>g. toMinutes g = Some e) \<and> 0 \<le> e \<and> e < 6040)) \<and>
   (0 \<le> getHours now \<and> getHours now < 24 \<and> 0 \<le> getMinutes now \<and> getMinutes now < 60 \<longrightarrow>
      0 \<le> nowMinutes now \<and> nowMinutes now < 1440)"
proof -
  have a: "toMinutes hm = Some v \<longrightarrow> 0 \<le> v \<and> v < 6040"
    using toMinutes_bounds by blast
  have b: "re_search hm_at hm = Some (h, m, rest) \<and> parseInt h \<le> 23 \<and> parseInt m \<le> 59 \<longrightarrow>
      toMinutes hm = Some (parseInt h * 60 + parseInt m) \<and>
      0 \<le> parseInt h * 60 + parseInt m \<and> parseInt h * 60 + parseInt m < 1440"
    using toMinutes_in_day by blast
  have c: "find_now nowM items = Some f \<longrightarrow>
      (\<exists>g. toMinutes g = Some (start f)) \<and> 0 \<le> start f \<and> start f < 6040 \<and>
      (\<forall>e. endm f = Some e \<longrightarrow> (\<exists>g. toMinutes g = Some e) \<and> 0 \<le> e \<and> e < 6040)"
  proof
    assume "find_now nowM items = Some f"
    then have m: "(\<exists>g. toMinutes g = Some (start f)) \<and>
        (\<forall>e. endm f = Some e \<longrightarrow> (\<exists>g. toMinutes g = Some e))"
      by (rule find_now_minutes)
    then have "0 \<le> start f \<and> start f < 6040"
      using toMinutes_bounds by blast
    moreover have "\<forall>e. endm f = Some e \<longrightarrow> (\<exists>g. toMinutes g = Some e) \<and> 0 \<le> e \<and> e < 6040"
      using m toMinutes_bounds by blast
    ultimately show "(\<exists>g. toMinutes g = Some (start f)) \<and> 0 \<le> start f \<and> start f < 6040 \<and>
      (\<forall>e. endm f = Some e \<longrightarrow> (\<exists>g. toMinutes g = Some e) \<and> 0 \<le> e \<and> e < 6040)"
      using m by blast
  qed
  have d: "0 \<le> getHours now \<and> getHours now < 24 \<and> 0 \<le> getMinutes now \<and> getMinutes now < 60 \<longrightarrow>
      0 \<le> nowMinutes now \<and> nowMinutes now < 1440"
    by (simp add: nowMinutes_def)
  from a b c d show ?thesis by (intro conjI)
qed

lemma ex_overflow_found:
  "find_now 600 [ex_overflow] = Some \<lparr>title = js ''Lang'', start = 0, endm = Some 1599\<rparr>"
  by (simp add: ex_overflow_def find_now_def range_hit_def title_or_def re_eval)

text \<open>
  The text 25:99 gives 1599, inside \<open>[0, 6040)\<close>; the text 09:00 gives 540; the program
  found in the entry 00:00 - 25:99 has its bounds inside \<open>[0, 6040)\<close>; Wednesday 09:15 is
  minute 555.
\<close>

theorem minutes_ranges_witness:
  "toMinutes (js ''25:99'') = Some 1599 \<and> (0::int) \<le> 1599 \<and> (1599::int) < 6040 \<and>
   toMinutes (js ''09:00'') = Some 540 \<and> (540::int) < 1440 \<and>
   find_now 600 [ex_overflow] = Some \<lparr>title = js ''Lang'', start = 0, endm = Some 1599\<rparr> \<and>
   0 \<le> nowMinutes ex_now \<and> nowMinutes ex_now < 1440"
proof -
  have t: "toMinutes (js ''25:99'') = Some 1599" by (simp add: re_eval)
  have s: "re_search hm_at (js ''09:00'') = Some (js ''09'', js ''00'', []) \<and>
      parseInt (js ''09'') \<le> 23 \<and> parseInt (js ''00'') \<le> 59"
    by (simp add: re_eval)
  have d: "0 \<le> getHours ex_now \<and> getHours ex_now < 24 \<and> 0 \<le> getMinutes ex_now \<and>
      getMinutes ex_now < 60"
    by (simp add: ex_now_def)
  have fnd: "find_now 600 [ex_overflow] = Some \<lparr>title = js ''Lang'', start = 0, endm = Some 1599\<rparr>"
    by (rule ex_overflow_found)
  have "(0::int) \<le> 1599 \<and> (1599::int) < 6040"
    using minutes_ranges [where hm = "js ''25:99''" and v = 1599, THEN conjunct1] t by (rule mp)
  moreover have "toMinutes (js ''09:00'') = Some (parseInt (js ''09'') * 60 + parseInt (js ''00'')) \<and>
      0 \<le> parseInt (js ''09'') * 60 + parseInt (js ''00'') \<and>
      parseInt (js ''09'') * 60 + parseInt (js ''00'') < 1440"
    using minutes_ranges [where hm = "js ''09:00''" and h = "js ''09''" and m = "js ''00''"
        and rest = "[]", THEN conjunct2, THEN conjunct1] s by (rule mp)
  moreover have "0 \<le> nowMinutes ex_now \<and> nowMinutes ex_now < 1440"
    using minutes_ranges [where now = ex_now,
        THEN conjunct2, THEN conjunct2, THEN conjunct2] d by (rule mp)
  moreover have "(\<exists>g. toMinutes g = Some (start \<lparr>title = js ''Lang'', start = 0, endm = Some 1599\<rparr>)) \<and>
      0 \<le> start \<lparr>title = js ''Lang'', start = 0, endm = Some 1599\<rparr> \<and>
      start \<lparr>title = js ''Lang'', start = 0, endm = Some 1599\<rparr> < 6040 \<and>
      (\<forall>e. endm \<lparr>title = js ''Lang'', start = 0, endm = Some 1599\<rparr> = Some e \<longrightarrow>
         (\<exists>g. toMinutes g = Some e) \<and> 0 \<le> e \<and> e < 6040)"
    using minutes_ranges [where nowM = 600 and items = "[ex_overflow]"
        and f = "\<lparr>title = js ''Lang'', start = 0, endm = Some 1599\<rparr>",
        THEN conjunct2, THEN conjunct2, THEN conjunct1] fnd by (rule mp)
  ultimately show ?thesis
    using t fnd by (simp add: parseInt_def js_def)
qed

text \<open>
  The text 25:99 is accepted and gives 1599 minutes: at 10:00 the entry 00:00 - 25:99 is
  found with the end 1599, outside \<open>[0, 1440)\<close>.
\<close>

theorem minutes_range_counterexample:
  "toMinutes (js ''25:99'') = Some 1599 \<and>
   find_now 600 [ex_overflow] = Some \<lparr>title = js ''Lang'', start = 0, endm = Some 1599\<rparr> \<and>
   \<not> (1599::int) < 1440"
  using ex_overflow_found by (simp add: re_eval)

end
